theory Spec2Isabelle
  imports Main
begin

section \<open>JavaScript values\<close>

text \<open>
  The request bodies and the stored employee objects hold JSON primitives. A property
  read on an object that lacks the key gives \<open>undefined\<close>, so \<open>JUndefined\<close> stands
  for an absent field. A number is the integer that a double holds; arithmetic on
  numbers rounds to the nearest double, and \<open>String\<close> writes the shortest decimal that
  reads back as the double. Strings are sequences of code units below 256.
\<close>

datatype jsval = JUndefined | JNull | JBool bool | JNum int | JStr string

text \<open>An object read through its keys: \<open>data[field]\<close> is \<open>data field\<close>.\<close>

type_synonym jsobject = "string \<Rightarrow> jsval"

definition empty_object :: jsobject where
  "empty_object = (\<lambda>field. JUndefined)"

text \<open>\<open>!v\<close> is \<open>\<not> truthy v\<close>.\<close>

fun truthy :: "jsval \<Rightarrow> bool" where
  "truthy JUndefined = False"
| "truthy JNull = False"
| "truthy (JBool b) = b"
| "truthy (JNum n) = (n \<noteq> 0)"
| "truthy (JStr s) = (s \<noteq> [])"

text \<open>\<open>a || b\<close> and \<open>a ?? b\<close>.\<close>

definition js_or :: "jsval \<Rightarrow> jsval \<Rightarrow> jsval" where
  "js_or a b = (if truthy a then a else b)"

definition nullish :: "jsval \<Rightarrow> jsval \<Rightarrow> jsval" where
  "nullish a b = (if a = JUndefined \<or> a = JNull then b else a)"

subsection \<open>Strings\<close>

text \<open>The characters \<open>String.prototype.trim\<close> removes, among the code units below 256.\<close>

definition is_whitespace :: "char \<Rightarrow> bool" where
  "is_whitespace c =
     (c \<in> {CHR 0x09, CHR 0x0A, CHR 0x0B, CHR 0x0C, CHR 0x0D, CHR 0x20, CHR 0xA0})"

definition trim :: "string \<Rightarrow> string" where
  "trim s = rev (dropWhile is_whitespace (rev (dropWhile is_whitespace s)))"

text \<open>The class \<open>\d\<close>; \<open>\D\<close> is its complement.\<close>

definition is_digit :: "char \<Rightarrow> bool" where
  "is_digit c = (c \<in> set ''0123456789'')"

text \<open>\<open>s.replace(/\D/g, "")\<close>\<close>

definition strip_non_digits :: "string \<Rightarrow> string" where
  "strip_non_digits s = filter is_digit s"

text \<open>\<open>/^\d{10}$/.test(s)\<close>: without the \<open>m\<close> flag the anchors are the two ends of \<open>s\<close>.\<close>

definition ten_digits :: "string \<Rightarrow> bool" where
  "ten_digits s = (length s = 10 \<and> list_all is_digit s)"

subsection \<open>Numbers\<close>

text \<open>\<open>Number.isSafeInteger\<close>: on the safe integers the arithmetic of doubles is exact.\<close>

definition safe_integer :: "int \<Rightarrow> bool" where
  "safe_integer n = (\<bar>n\<bar> < 2 ^ 53)"

text \<open>The gap between the doubles next to a magnitude, from \<open>2^53\<close> on a power of two.\<close>

function ulp :: "int \<Rightarrow> int" where
  "ulp a = (if a < 2 ^ 53 then 1 else 2 * ulp (a div 2))"
  by pat_completeness auto
termination
  by (relation "measure nat") auto

declare ulp.simps [simp del]

text \<open>The double nearest to an integer; of two that are equally near, the even one.\<close>

definition double_round :: "int \<Rightarrow> int" where
  "double_round x =
     (let a = \<bar>x\<bar>; q = ulp a; m = a div q; r = a mod q;
          up = (if 2 * r < q then m
                else if q < 2 * r then m + 1
                else if even m then m else m + 1)
      in sgn x * (up * q))"

text \<open>\<open>a + b\<close> on numbers.\<close>

definition js_add :: "int \<Rightarrow> int \<Rightarrow> int" where
  "js_add a b = double_round (a + b)"

text \<open>The decimal digits of a number that is not negative.\<close>

function digits_of :: "int \<Rightarrow> string" where
  "digits_of n =
     (if n < 10 then [''0123456789'' ! nat n]
      else digits_of (n div 10) @ [''0123456789'' ! nat (n mod 10)])"
  by pat_completeness auto
termination
  by (relation "measure nat") auto

declare digits_of.simps [simp del]

text \<open>
  \<open>Number::toString\<close> on a double \<open>a\<close> above \<open>2^53\<close>: the decimal with the fewest
  significant digits that reads back as \<open>a\<close>, the nearest to \<open>a\<close> among those. With \<open>k\<close>
  digits it is one of the two multiples of the power of ten next to \<open>a\<close>.
\<close>

definition shortest_at :: "int \<Rightarrow> nat \<Rightarrow> int option" where
  "shortest_at a k =
     (let p = 10 ^ (length (digits_of a) - k);
          lo = (a div p) * p;
          hi = lo + p;
          okl = (double_round lo = a);
          okh = (double_round hi = a)
      in if okl \<and> okh
         then (if a - lo < hi - a then Some lo
               else if hi - a < a - lo then Some hi
               else if even (a div p) then Some lo else Some hi)
         else if okl then Some lo
         else if okh then Some hi
         else None)"

fun shortest_from :: "int \<Rightarrow> nat list \<Rightarrow> int" where
  "shortest_from a [] = a"
| "shortest_from a (k # ks) =
     (case shortest_at a k of Some v \<Rightarrow> v | None \<Rightarrow> shortest_from a ks)"

definition shortest_decimal :: "int \<Rightarrow> int" where
  "shortest_decimal a = shortest_from a [1 ..< 18]"

text \<open>The notation with an exponent, which is used from \<open>1e21\<close> on.\<close>

definition exponent_form :: "string \<Rightarrow> string" where
  "exponent_form ds =
     (let s = rev (dropWhile (\<lambda>c. c = CHR ''0'') (rev ds))
      in (if length s = 1 then s else hd s # CHR ''.'' # tl s)
         @ ''e+'' @ digits_of (int (length ds) - 1))"

definition magnitude_to_string :: "int \<Rightarrow> string" where
  "magnitude_to_string a =
     (if a \<le> 2 ^ 53 then digits_of a
      else if 2 ^ 1024 \<le> double_round a then ''Infinity''
      else (let ds = digits_of (shortest_decimal (double_round a))
            in if length ds \<le> 21 then ds else exponent_form ds))"

definition number_to_string :: "int \<Rightarrow> string" where
  "number_to_string n =
     (if n < 0 then CHR ''-'' # magnitude_to_string (- n) else magnitude_to_string n)"

text \<open>\<open>String(v)\<close>\<close>

fun js_String :: "jsval \<Rightarrow> string" where
  "js_String JUndefined = ''undefined''"
| "js_String JNull = ''null''"
| "js_String (JBool b) = (if b then ''true'' else ''false'')"
| "js_String (JNum n) = number_to_string n"
| "js_String (JStr s) = s"

section \<open>The employee record and the record store\<close>

text \<open>
  An employee object as the handlers build it. The stored identifiers are integers.
\<close>

record employee =
  id_emp :: int
  name :: jsval
  email :: jsval
  phone :: jsval
  role :: jsval
  department :: jsval
  salary :: jsval
  date_of_joining :: jsval
  status :: jsval

text \<open>
  The two functions of the JSON library the store uses, on documents that hold a
  collection: \<open>JSON.parse\<close> (\<open>None\<close> when it throws a SyntaxError) and
  \<open>JSON.stringify(employees, null, 2)\<close>; and \<open>JSON.stringify\<close> on one employee,
  which the tool-calling server uses for its replies.
\<close>

record json_lib =
  JSON_parse :: "string \<Rightarrow> employee list option"
  JSON_stringify :: "employee list \<Rightarrow> string"
  JSON_stringify_employee :: "employee \<Rightarrow> string"

text \<open>The file \<open>employees.json\<close>: it is not there, it cannot be read, or it has a content.\<close>

datatype document = Absent | Unreadable | Content string

datatype exn = IOError | SyntaxError

definition existsSync :: "document \<Rightarrow> bool" where
  "existsSync doc = (doc \<noteq> Absent)"

definition readFileSync :: "document \<Rightarrow> exn + string" where
  "readFileSync doc = (case doc of Content raw \<Rightarrow> Inr raw | _ \<Rightarrow> Inl IOError)"

definition parse_document :: "json_lib \<Rightarrow> string \<Rightarrow> exn + employee list" where
  "parse_document J raw =
     (case JSON_parse J raw of None \<Rightarrow> Inl SyntaxError | Some employees \<Rightarrow> Inr employees)"

text \<open>The body of the \<open>try\<close> block of \<open>loadEmployees\<close>.\<close>

definition load_try :: "json_lib \<Rightarrow> document \<Rightarrow> exn + employee list" where
  "load_try J doc =
     (case readFileSync doc of
        Inl err \<Rightarrow> Inl err
      | Inr raw \<Rightarrow> if trim raw = [] then Inr [] else parse_document J raw)"

text \<open>\<open>loadEmployees\<close>: \<open>Inl\<close> would be an exception that reaches the caller.\<close>

definition loadEmployees :: "json_lib \<Rightarrow> document \<Rightarrow> exn + employee list" where
  "loadEmployees J doc =
     (if \<not> existsSync doc then Inr []
      else (case load_try J doc of
              Inl err \<Rightarrow> Inr []
            | Inr employees \<Rightarrow> Inr employees))"

text \<open>\<open>saveEmployees\<close> overwrites the file; the write is taken to succeed.\<close>

definition saveEmployees :: "json_lib \<Rightarrow> employee list \<Rightarrow> document \<Rightarrow> document" where
  "saveEmployees J employees doc = Content (JSON_stringify J employees)"

definition getNextId :: "employee list \<Rightarrow> int" where
  "getNextId employees =
     (if length employees = 0 then 1
      else js_add (Max (set (map id_emp employees))) 1)"


section \<open>The HTTP handlers\<close>

text \<open>
  A handler takes the request and the file and gives the response and the file it
  leaves. An exception that no handler catches is answered with status 500.
\<close>

datatype payload =
  ErrorMsg string
| EmployeeBody employee
| EmployeesBody "employee list"
| NoBody

datatype response = Response nat payload

fun status_code :: "response \<Rightarrow> nat" where
  "status_code (Response code body) = code"

text \<open>
  \<open>Number(req.params.id)\<close>: an integer, or a number (\<open>NaN\<close>, a fraction) that is
  \<open>===\<close> to no stored identifier.
\<close>

datatype route_id = IdInt int | IdOther

definition id_matches :: "route_id \<Rightarrow> employee \<Rightarrow> bool" where
  "id_matches rid e = (IdInt (id_emp e) = rid)"

text \<open>\<open>Array.prototype.findIndex\<close>, with \<open>-1\<close> when no element satisfies the test.\<close>

fun findIndex :: "('a \<Rightarrow> bool) \<Rightarrow> 'a list \<Rightarrow> int" where
  "findIndex P [] = - 1"
| "findIndex P (x # xs) =
     (if P x then 0
      else (let i = findIndex P xs in if i = - 1 then - 1 else i + 1))"

definition required :: "string list" where
  "required = [''name'', ''email'', ''phone'']"

text \<open>The loop over the required fields: the first field that fails the test.\<close>

fun first_missing :: "jsobject \<Rightarrow> string list \<Rightarrow> string option" where
  "first_missing data [] = None"
| "first_missing data (field # rest) =
     (if \<not> truthy (data field) \<or> trim (js_String (data field)) = []
      then Some field
      else first_missing data rest)"

definition required_message :: "string \<Rightarrow> string" where
  "required_message field = [CHR 0x27] @ field @ [CHR 0x27] @ '' is required''"

definition phone_message :: string where
  "phone_message = ''Phone number must be exactly 10 digits''"

definition not_found_message :: string where
  "not_found_message = ''Employee not found''"

text \<open>
  \<open>String(v || "").trim().replace(/\D/g, "")\<close>, which the POST and the PUT handler
  both compute from \<open>data.phone\<close>.
\<close>

definition phone_digits :: "jsval \<Rightarrow> string" where
  "phone_digits v = strip_non_digits (trim (js_String (js_or v (JStr []))))"

text \<open>\<open>POST /api/employees\<close>\<close>

definition http_post_employees ::
  "json_lib \<Rightarrow> jsobject \<Rightarrow> document \<Rightarrow> response \<times> document" where
  "http_post_employees J data doc =
     (case loadEmployees J doc of
        Inl err \<Rightarrow> (Response 500 NoBody, doc)
      | Inr employees \<Rightarrow>
          (case first_missing data required of
             Some field \<Rightarrow> (Response 400 (ErrorMsg (required_message field)), doc)
           | None \<Rightarrow>
               (let phoneDigits = phone_digits (data ''phone'') in
                if length phoneDigits \<noteq> 10
                then (Response 400 (ErrorMsg phone_message), doc)
                else
                  (let newEmployee =
                     \<lparr> id_emp = getNextId employees,
                       name = data ''name'',
                       email = data ''email'',
                       phone = JStr phoneDigits,
                       role = js_or (data ''role'') (JStr []),
                       department = js_or (data ''department'') (JStr []),
                       salary = js_or (data ''salary'') (JNum 0),
                       date_of_joining = js_or (data ''date_of_joining'') (JStr []),
                       status = js_or (data ''status'') (JStr ''Active'') \<rparr>
                   in (Response 201 (EmployeeBody newEmployee),
                       saveEmployees J (employees @ [newEmployee]) doc)))))"

text \<open>\<open>GET /api/employees\<close> and \<open>GET /api/employees/:id\<close>\<close>

definition http_get_employees :: "json_lib \<Rightarrow> document \<Rightarrow> response \<times> document" where
  "http_get_employees J doc =
     (case loadEmployees J doc of
        Inl err \<Rightarrow> (Response 500 NoBody, doc)
      | Inr employees \<Rightarrow> (Response 200 (EmployeesBody employees), doc))"

definition http_get_employee ::
  "json_lib \<Rightarrow> route_id \<Rightarrow> document \<Rightarrow> response \<times> document" where
  "http_get_employee J rid doc =
     (case loadEmployees J doc of
        Inl err \<Rightarrow> (Response 500 NoBody, doc)
      | Inr employees \<Rightarrow>
          (case find (id_matches rid) employees of
             None \<Rightarrow> (Response 404 (ErrorMsg not_found_message), doc)
           | Some emp \<Rightarrow> (Response 200 (EmployeeBody emp), doc)))"

text \<open>
  \<open>PUT /api/employees/:id\<close>. The phone of the merged object: \<open>None\<close> is the early
  return with status 400.
\<close>

definition updated_phone :: "jsobject \<Rightarrow> employee \<Rightarrow> jsval option" where
  "updated_phone data emp =
     (if data ''phone'' \<noteq> JUndefined
      then (let phoneDigits = phone_digits (data ''phone'') in
            if length phoneDigits \<noteq> 10 then None else Some (JStr phoneDigits))
      else Some (phone emp))"

definition merge_employee :: "jsobject \<Rightarrow> employee \<Rightarrow> jsval \<Rightarrow> employee" where
  "merge_employee data emp updatedPhone =
     emp \<lparr> name := nullish (data ''name'') (name emp),
           email := nullish (data ''email'') (email emp),
           phone := updatedPhone,
           role := nullish (data ''role'') (role emp),
           department := nullish (data ''department'') (department emp),
           salary := nullish (data ''salary'') (salary emp),
           date_of_joining := nullish (data ''date_of_joining'') (date_of_joining emp),
           status := nullish (data ''status'') (status emp) \<rparr>"

definition http_put_employee ::
  "json_lib \<Rightarrow> route_id \<Rightarrow> jsobject \<Rightarrow> document \<Rightarrow> response \<times> document" where
  "http_put_employee J rid data doc =
     (case loadEmployees J doc of
        Inl err \<Rightarrow> (Response 500 NoBody, doc)
      | Inr employees \<Rightarrow>
          (let index = findIndex (id_matches rid) employees in
           if index = - 1
           then (Response 404 (ErrorMsg not_found_message), doc)
           else
             (let emp = employees ! nat index in
              case updated_phone data emp of
                None \<Rightarrow> (Response 400 (ErrorMsg phone_message), doc)
              | Some updatedPhone \<Rightarrow>
                  (let employees' =
                     employees [nat index := merge_employee data emp updatedPhone]
                   in (Response 200 (EmployeeBody (employees' ! nat index)),
                       saveEmployees J employees' doc)))))"

text \<open>\<open>DELETE /api/employees/:id\<close>\<close>

definition http_delete_employee ::
  "json_lib \<Rightarrow> route_id \<Rightarrow> document \<Rightarrow> response \<times> document" where
  "http_delete_employee J rid doc =
     (case loadEmployees J doc of
        Inl err \<Rightarrow> (Response 500 NoBody, doc)
      | Inr employees \<Rightarrow>
          (let filtered = filter (\<lambda>e. \<not> id_matches rid e) employees in
           if length filtered = length employees
           then (Response 404 (ErrorMsg not_found_message), doc)
           else (Response 204 NoBody, saveEmployees J filtered doc)))"

section \<open>The tool-calling server\<close>

text \<open>
  A tool call is checked against the tool's input schema before its handler runs; a
  call that fails the schema is answered with an error and the handler does not run.
  The check of \<open>z.string().email()\<close> belongs to the schema library and is a parameter.
\<close>

datatype tool_result = InvalidParams | HandlerError | TextContent string

definition optional_string :: "jsval \<Rightarrow> bool" where
  "optional_string v = (case v of JUndefined \<Rightarrow> True | JStr s \<Rightarrow> True | _ \<Rightarrow> False)"

definition optional_number :: "jsval \<Rightarrow> bool" where
  "optional_number v = (case v of JUndefined \<Rightarrow> True | JNum n \<Rightarrow> True | _ \<Rightarrow> False)"

text \<open>\<open>z.string().min(1)\<close>, \<open>z.string().email()\<close> and \<open>z.string().regex(/^\d{10}$/)\<close>\<close>

definition name_schema :: "jsval \<Rightarrow> bool" where
  "name_schema v = (case v of JStr s \<Rightarrow> 1 \<le> length s | _ \<Rightarrow> False)"

definition email_schema :: "(string \<Rightarrow> bool) \<Rightarrow> jsval \<Rightarrow> bool" where
  "email_schema is_email v = (case v of JStr s \<Rightarrow> is_email s | _ \<Rightarrow> False)"

definition phone_schema :: "jsval \<Rightarrow> bool" where
  "phone_schema v = (case v of JStr s \<Rightarrow> ten_digits s | _ \<Rightarrow> False)"

definition create_employee_schema :: "(string \<Rightarrow> bool) \<Rightarrow> jsobject \<Rightarrow> bool" where
  "create_employee_schema is_email args =
     (name_schema (args ''name'') \<and>
      email_schema is_email (args ''email'') \<and>
      phone_schema (args ''phone'') \<and>
      optional_string (args ''role'') \<and>
      optional_string (args ''department'') \<and>
      optional_number (args ''salary'') \<and>
      optional_string (args ''date_of_joining'') \<and>
      optional_string (args ''status''))"

definition tool_list_employees :: "json_lib \<Rightarrow> document \<Rightarrow> tool_result \<times> document" where
  "tool_list_employees J doc =
     (case loadEmployees J doc of
        Inl err \<Rightarrow> (HandlerError, doc)
      | Inr employees \<Rightarrow>
          (TextContent (if length employees = 0 then ''No employees found.''
                        else JSON_stringify J employees), doc))"

definition tool_create_employee ::
  "json_lib \<Rightarrow> (string \<Rightarrow> bool) \<Rightarrow> jsobject \<Rightarrow> document \<Rightarrow> tool_result \<times> document" where
  "tool_create_employee J is_email args doc =
     (if \<not> create_employee_schema is_email args then (InvalidParams, doc)
      else
        (case loadEmployees J doc of
           Inl err \<Rightarrow> (HandlerError, doc)
         | Inr employees \<Rightarrow>
             (let newEmployee =
                \<lparr> id_emp = getNextId employees,
                  name = args ''name'',
                  email = args ''email'',
                  phone = args ''phone'',
                  role = js_or (args ''role'') (JStr []),
                  department = js_or (args ''department'') (JStr []),
                  salary = nullish (args ''salary'') (JNum 0),
                  date_of_joining = js_or (args ''date_of_joining'') (JStr []),
                  status = js_or (args ''status'') (JStr ''Active'') \<rparr>
              in (TextContent (''Employee created:'' @ [CHR 0x0A]
                                 @ JSON_stringify_employee J newEmployee),
                  saveEmployees J (employees @ [newEmployee]) doc))))"

definition delete_employee_schema :: "jsobject \<Rightarrow> bool" where
  "delete_employee_schema args = (case args ''id'' of JNum n \<Rightarrow> 0 < n | _ \<Rightarrow> False)"

definition tool_delete_employee ::
  "json_lib \<Rightarrow> jsobject \<Rightarrow> document \<Rightarrow> tool_result \<times> document" where
  "tool_delete_employee J args doc =
     (if \<not> delete_employee_schema args then (InvalidParams, doc)
      else
        (case loadEmployees J doc of
           Inl err \<Rightarrow> (HandlerError, doc)
         | Inr employees \<Rightarrow>
             (let beforeCount = length employees;
                  filtered = filter (\<lambda>e. JNum (id_emp e) \<noteq> args ''id'') employees
              in if length filtered = beforeCount
                 then (TextContent (''No employee found with id ''
                                      @ js_String (args ''id'') @ ''.''), doc)
                 else (TextContent (''Employee with id '' @ js_String (args ''id'')
                                      @ '' deleted successfully.''),
                       saveEmployees J filtered doc))))"

section \<open>A JSON library for the documents of the store\<close>

text \<open>
  The library on the documents of the store: the text that \<open>JSON.stringify\<close> with an
  indentation of two spaces gives for an array of employee objects, and a reader of JSON
  text for arrays of objects that hold primitives. A field that is \<open>undefined\<close> is not
  written; a text that is no such array is refused.
\<close>

fun join :: "string \<Rightarrow> string list \<Rightarrow> string" where
  "join sep [] = []"
| "join sep [x] = x"
| "join sep (x # y # ys) = x @ sep @ join sep (y # ys)"

definition hex_digit :: "nat \<Rightarrow> char" where
  "hex_digit n = ''0123456789abcdef'' ! n"

definition escape_char :: "char \<Rightarrow> string" where
  "escape_char c =
     (if c = CHR 0x22 then [CHR 0x5C, CHR 0x22]
      else if c = CHR 0x5C then [CHR 0x5C, CHR 0x5C]
      else if c = CHR 0x08 then [CHR 0x5C, CHR ''b'']
      else if c = CHR 0x09 then [CHR 0x5C, CHR ''t'']
      else if c = CHR 0x0A then [CHR 0x5C, CHR ''n'']
      else if c = CHR 0x0C then [CHR 0x5C, CHR ''f'']
      else if c = CHR 0x0D then [CHR 0x5C, CHR ''r'']
      else if (of_char c :: nat) < 32
      then [CHR 0x5C, CHR ''u'', CHR ''0'', CHR ''0'',
            hex_digit (of_char c div 16), hex_digit (of_char c mod 16)]
      else [c])"

definition quote :: "string \<Rightarrow> string" where
  "quote s = [CHR 0x22] @ concat (map escape_char s) @ [CHR 0x22]"

fun json_value :: "jsval \<Rightarrow> string" where
  "json_value JUndefined = []"
| "json_value JNull = ''null''"
| "json_value (JBool b) = (if b then ''true'' else ''false'')"
| "json_value (JNum n) =
     (if 2 ^ 1024 \<le> double_round \<bar>n\<bar> then ''null'' else number_to_string n)"
| "json_value (JStr s) = quote s"

definition employee_fields :: "employee \<Rightarrow> (string \<times> jsval) list" where
  "employee_fields e =
     [(''id'', JNum (id_emp e)), (''name'', name e), (''email'', email e),
      (''phone'', phone e), (''role'', role e), (''department'', department e),
      (''salary'', salary e), (''date_of_joining'', date_of_joining e),
      (''status'', status e)]"

definition stringify_object :: "string \<Rightarrow> (string \<times> jsval) list \<Rightarrow> string" where
  "stringify_object indent kvs =
     (let present = filter (\<lambda>kv. snd kv \<noteq> JUndefined) kvs in
      if present = [] then ''{}''
      else ''{'' @ [CHR 0x0A]
           @ join ('','' @ [CHR 0x0A])
               (map (\<lambda>kv. indent @ ''  '' @ quote (fst kv) @ '': '' @ json_value (snd kv))
                  present)
           @ [CHR 0x0A] @ indent @ ''}'')"

definition stringify_employees :: "employee list \<Rightarrow> string" where
  "stringify_employees es =
     (if es = [] then ''[]''
      else ''['' @ [CHR 0x0A]
           @ join ('','' @ [CHR 0x0A])
               (map (\<lambda>e. ''  '' @ stringify_object ''  '' (employee_fields e)) es)
           @ [CHR 0x0A] @ '']'')"

datatype token = LBracket | RBracket | LBrace | RBrace | Comma | Colon | Lit jsval

datatype lex_state =
  Idle
| InString string
| InEscape string
| InHex string nat nat
| InNumber string
| InWord string

definition hex_value :: "char \<Rightarrow> nat option" where
  "hex_value c =
     (let n = (of_char c :: nat) in
      if 48 \<le> n \<and> n \<le> 57 then Some (n - 48)
      else if 97 \<le> n \<and> n \<le> 102 then Some (n - 87)
      else if 65 \<le> n \<and> n \<le> 70 then Some (n - 55)
      else None)"

definition digits_value :: "string \<Rightarrow> int" where
  "digits_value ds = foldl (\<lambda>acc c. 10 * acc + (of_char c - 48)) 0 ds"

definition number_token :: "string \<Rightarrow> token option" where
  "number_token s =
     (let ds = (if s \<noteq> [] \<and> hd s = CHR ''-'' then tl s else s) in
      if ds = [] \<or> \<not> list_all is_digit ds \<or> (hd ds = CHR ''0'' \<and> length ds \<noteq> 1)
      then None
      else Some (Lit (JNum (double_round (if s \<noteq> [] \<and> hd s = CHR ''-''
                                          then - digits_value ds else digits_value ds)))))"

definition word_token :: "string \<Rightarrow> token option" where
  "word_token s =
     (if s = ''true'' then Some (Lit (JBool True))
      else if s = ''false'' then Some (Lit (JBool False))
      else if s = ''null'' then Some (Lit JNull)
      else None)"

definition is_lower :: "char \<Rightarrow> bool" where
  "is_lower c = (97 \<le> (of_char c :: nat) \<and> (of_char c :: nat) \<le> 122)"

definition idle_step :: "char \<Rightarrow> (token list \<times> lex_state) option" where
  "idle_step c =
     (if c \<in> {CHR 0x20, CHR 0x09, CHR 0x0A, CHR 0x0D} then Some ([], Idle)
      else if c = CHR ''['' then Some ([LBracket], Idle)
      else if c = CHR '']'' then Some ([RBracket], Idle)
      else if c = CHR ''{'' then Some ([LBrace], Idle)
      else if c = CHR ''}'' then Some ([RBrace], Idle)
      else if c = CHR '','' then Some ([Comma], Idle)
      else if c = CHR '':'' then Some ([Colon], Idle)
      else if c = CHR 0x22 then Some ([], InString [])
      else if c = CHR ''-'' \<or> is_digit c then Some ([], InNumber [c])
      else if is_lower c then Some ([], InWord [c])
      else None)"

definition unescape :: "char \<Rightarrow> char option" where
  "unescape c =
     (if c = CHR 0x22 \<or> c = CHR 0x5C \<or> c = CHR ''/'' then Some c
      else if c = CHR ''b'' then Some (CHR 0x08)
      else if c = CHR ''t'' then Some (CHR 0x09)
      else if c = CHR ''n'' then Some (CHR 0x0A)
      else if c = CHR ''f'' then Some (CHR 0x0C)
      else if c = CHR ''r'' then Some (CHR 0x0D)
      else None)"

fun lex_step :: "lex_state \<Rightarrow> char \<Rightarrow> (token list \<times> lex_state) option" where
  "lex_step Idle c = idle_step c"
| "lex_step (InString acc) c =
     (if c = CHR 0x22 then Some ([Lit (JStr (rev acc))], Idle)
      else if c = CHR 0x5C then Some ([], InEscape acc)
      else if (of_char c :: nat) < 32 then None
      else Some ([], InString (c # acc)))"
| "lex_step (InEscape acc) c =
     (if c = CHR ''u'' then Some ([], InHex acc 0 0)
      else (case unescape c of None \<Rightarrow> None | Some d \<Rightarrow> Some ([], InString (d # acc))))"
| "lex_step (InHex acc k v) c =
     (case hex_value c of
        None \<Rightarrow> None
      | Some d \<Rightarrow>
          if k < 3 then Some ([], InHex acc (k + 1) (16 * v + d))
          else if 16 * v + d < 256 then Some ([], InString (char_of (16 * v + d) # acc))
          else None)"
| "lex_step (InNumber acc) c =
     (if is_digit c then Some ([], InNumber (c # acc))
      else (case number_token (rev acc) of
              None \<Rightarrow> None
            | Some t \<Rightarrow>
                (case idle_step c of None \<Rightarrow> None | Some (ts, st) \<Rightarrow> Some (t # ts, st))))"
| "lex_step (InWord acc) c =
     (if is_lower c then Some ([], InWord (c # acc))
      else (case word_token (rev acc) of
              None \<Rightarrow> None
            | Some t \<Rightarrow>
                (case idle_step c of None \<Rightarrow> None | Some (ts, st) \<Rightarrow> Some (t # ts, st))))"

fun lex_finish :: "lex_state \<Rightarrow> token list option" where
  "lex_finish Idle = Some []"
| "lex_finish (InNumber acc) = map_option (\<lambda>t. [t]) (number_token (rev acc))"
| "lex_finish (InWord acc) = map_option (\<lambda>t. [t]) (word_token (rev acc))"
| "lex_finish st = None"

text \<open>The tokens that a text gives, and the state in which it leaves the lexer.\<close>

fun lex_run :: "lex_state \<Rightarrow> string \<Rightarrow> (token list \<times> lex_state) option" where
  "lex_run st [] = Some ([], st)"
| "lex_run st (c # cs) =
     (case lex_step st c of
        None \<Rightarrow> None
      | Some (ts, st') \<Rightarrow>
          (case lex_run st' cs of
             None \<Rightarrow> None
           | Some (ts', st'') \<Rightarrow> Some (ts @ ts', st'')))"

definition lex :: "lex_state \<Rightarrow> string \<Rightarrow> token list option" where
  "lex st raw =
     (case lex_run st raw of
        None \<Rightarrow> None
      | Some (ts, st') \<Rightarrow> map_option (\<lambda>r. ts @ r) (lex_finish st'))"

text \<open>The parser reads an array of objects whose values are primitives.\<close>

datatype parse_state =
  Start
| ArrayOpen
| ObjectOpen "employee list" "(string \<times> jsval) list"
| AfterKey "employee list" "(string \<times> jsval) list" string
| AfterColon "employee list" "(string \<times> jsval) list" string
| AfterValue "employee list" "(string \<times> jsval) list"
| AfterFieldComma "employee list" "(string \<times> jsval) list"
| AfterObject "employee list"
| AfterObjectComma "employee list"
| Finished "employee list"

definition field_of :: "(string \<times> jsval) list \<Rightarrow> string \<Rightarrow> jsval" where
  "field_of kvs k = (case map_of kvs k of None \<Rightarrow> JUndefined | Some v \<Rightarrow> v)"

text \<open>The fields arrive latest first, so that the last of two equal keys wins.\<close>

definition build_employee :: "(string \<times> jsval) list \<Rightarrow> employee option" where
  "build_employee kvs =
     (case field_of kvs ''id'' of
        JNum n \<Rightarrow>
          Some \<lparr> id_emp = n, name = field_of kvs ''name'', email = field_of kvs ''email'',
                 phone = field_of kvs ''phone'', role = field_of kvs ''role'',
                 department = field_of kvs ''department'', salary = field_of kvs ''salary'',
                 date_of_joining = field_of kvs ''date_of_joining'',
                 status = field_of kvs ''status'' \<rparr>
      | _ \<Rightarrow> None)"

definition close_object ::
  "employee list \<Rightarrow> (string \<times> jsval) list \<Rightarrow> parse_state option" where
  "close_object es kvs =
     (case build_employee kvs of None \<Rightarrow> None | Some e \<Rightarrow> Some (AfterObject (es @ [e])))"

definition parse_step :: "parse_state \<Rightarrow> token \<Rightarrow> parse_state option" where
  "parse_step st t =
     (case st of
        Start \<Rightarrow> (case t of LBracket \<Rightarrow> Some ArrayOpen | _ \<Rightarrow> None)
      | ArrayOpen \<Rightarrow>
          (case t of
             RBracket \<Rightarrow> Some (Finished [])
           | LBrace \<Rightarrow> Some (ObjectOpen [] [])
           | _ \<Rightarrow> None)
      | ObjectOpen es kvs \<Rightarrow>
          (case t of
             RBrace \<Rightarrow> close_object es kvs
           | Lit (JStr k) \<Rightarrow> Some (AfterKey es kvs k)
           | _ \<Rightarrow> None)
      | AfterKey es kvs k \<Rightarrow> (case t of Colon \<Rightarrow> Some (AfterColon es kvs k) | _ \<Rightarrow> None)
      | AfterColon es kvs k \<Rightarrow>
          (case t of Lit v \<Rightarrow> Some (AfterValue es ((k, v) # kvs)) | _ \<Rightarrow> None)
      | AfterValue es kvs \<Rightarrow>
          (case t of
             Comma \<Rightarrow> Some (AfterFieldComma es kvs)
           | RBrace \<Rightarrow> close_object es kvs
           | _ \<Rightarrow> None)
      | AfterFieldComma es kvs \<Rightarrow>
          (case t of Lit (JStr k) \<Rightarrow> Some (AfterKey es kvs k) | _ \<Rightarrow> None)
      | AfterObject es \<Rightarrow>
          (case t of
             Comma \<Rightarrow> Some (AfterObjectComma es)
           | RBracket \<Rightarrow> Some (Finished es)
           | _ \<Rightarrow> None)
      | AfterObjectComma es \<Rightarrow> (case t of LBrace \<Rightarrow> Some (ObjectOpen es []) | _ \<Rightarrow> None)
      | Finished es \<Rightarrow> None)"

fun parse_tokens :: "parse_state \<Rightarrow> token list \<Rightarrow> employee list option" where
  "parse_tokens st [] = (case st of Finished es \<Rightarrow> Some es | _ \<Rightarrow> None)"
| "parse_tokens st (t # ts) =
     (case parse_step st t of None \<Rightarrow> None | Some st' \<Rightarrow> parse_tokens st' ts)"

definition parse_employees :: "string \<Rightarrow> employee list option" where
  "parse_employees raw =
     (case lex Idle raw of None \<Rightarrow> None | Some ts \<Rightarrow> parse_tokens Start ts)"

definition json :: json_lib where
  "json = \<lparr> JSON_parse = parse_employees,
            JSON_stringify = stringify_employees,
            JSON_stringify_employee = (\<lambda>e. stringify_object [] (employee_fields e)) \<rparr>"

text \<open>The tokens of the text that is written for a collection.\<close>

fun sep_tokens :: "token list list \<Rightarrow> token list" where
  "sep_tokens [] = []"
| "sep_tokens [x] = x"
| "sep_tokens (x # y # ys) = x @ Comma # sep_tokens (y # ys)"

definition field_tokens :: "string \<times> jsval \<Rightarrow> token list" where
  "field_tokens kv = [Lit (JStr (fst kv)), Colon, Lit (snd kv)]"

definition present_fields :: "employee \<Rightarrow> (string \<times> jsval) list" where
  "present_fields e = filter (\<lambda>kv. snd kv \<noteq> JUndefined) (employee_fields e)"

definition object_tokens :: "employee \<Rightarrow> token list" where
  "object_tokens e = LBrace # sep_tokens (map field_tokens (present_fields e)) @ [RBrace]"

section \<open>Notions of the specification\<close>

text \<open>A string that is empty or holds only whitespace.\<close>

definition blank :: "string \<Rightarrow> bool" where
  "blank s = list_all is_whitespace s"

text \<open>A required field that is absent, empty or whitespace-only.\<close>

definition absent_or_blank :: "jsval \<Rightarrow> bool" where
  "absent_or_blank v = (case v of JUndefined \<Rightarrow> True | JStr s \<Rightarrow> blank s | _ \<Rightarrow> False)"

definition nonblank_string :: "jsval \<Rightarrow> bool" where
  "nonblank_string v = (case v of JStr s \<Rightarrow> \<not> blank s | _ \<Rightarrow> False)"

text \<open>
  The merge of the specification: a field that the partial input holds takes the new
  value, a field that it lacks keeps the prior one; a phone is stored without its
  non-digits.
\<close>

definition spec_merge_field :: "jsval \<Rightarrow> jsval \<Rightarrow> jsval" where
  "spec_merge_field new old = (if new = JUndefined then old else new)"

definition spec_merge_phone :: "jsval \<Rightarrow> jsval \<Rightarrow> jsval" where
  "spec_merge_phone new old =
     (case new of JStr p \<Rightarrow> JStr (strip_non_digits p) | _ \<Rightarrow> old)"

definition spec_merge :: "jsobject \<Rightarrow> employee \<Rightarrow> employee" where
  "spec_merge data emp =
     \<lparr> id_emp = id_emp emp,
       name = spec_merge_field (data ''name'') (name emp),
       email = spec_merge_field (data ''email'') (email emp),
       phone = spec_merge_phone (data ''phone'') (phone emp),
       role = spec_merge_field (data ''role'') (role emp),
       department = spec_merge_field (data ''department'') (department emp),
       salary = spec_merge_field (data ''salary'') (salary emp),
       date_of_joining = spec_merge_field (data ''date_of_joining'') (date_of_joining emp),
       status = spec_merge_field (data ''status'') (status emp) \<rparr>"

text \<open>
  A partial input of the data model: each field is absent or holds a value of its
  type, a string or, for the salary, a number.
\<close>

definition string_or_absent :: "jsval \<Rightarrow> bool" where
  "string_or_absent v = (case v of JUndefined \<Rightarrow> True | JStr s \<Rightarrow> True | _ \<Rightarrow> False)"

definition number_or_absent :: "jsval \<Rightarrow> bool" where
  "number_or_absent v = (case v of JUndefined \<Rightarrow> True | JNum n \<Rightarrow> True | _ \<Rightarrow> False)"

definition partial_employee :: "jsobject \<Rightarrow> bool" where
  "partial_employee data =
     (string_or_absent (data ''name'') \<and> string_or_absent (data ''email'')
      \<and> string_or_absent (data ''phone'') \<and> string_or_absent (data ''role'')
      \<and> string_or_absent (data ''department'') \<and> number_or_absent (data ''salary'')
      \<and> string_or_absent (data ''date_of_joining'') \<and> string_or_absent (data ''status''))"

definition employee_keys :: "string list" where
  "employee_keys = [''name'', ''email'', ''phone'', ''role'', ''department'', ''salary'',
                    ''date_of_joining'', ''status'']"

text \<open>
  A collection that JSON text represents: its numbers are safe integers. (A field that
  is \<open>undefined\<close> is read back as an absent one.)
\<close>

definition safe_value :: "jsval \<Rightarrow> bool" where
  "safe_value v = (case v of JNum n \<Rightarrow> safe_integer n | _ \<Rightarrow> True)"

definition safe_employee :: "employee \<Rightarrow> bool" where
  "safe_employee e =
     (safe_integer (id_emp e) \<and> safe_value (name e) \<and> safe_value (email e)
      \<and> safe_value (phone e) \<and> safe_value (role e) \<and> safe_value (department e)
      \<and> safe_value (salary e) \<and> safe_value (date_of_joining e) \<and> safe_value (status e))"

definition ids_safe :: "employee list \<Rightarrow> bool" where
  "ids_safe employees = list_all (\<lambda>e. safe_integer (id_emp e)) employees"

text \<open>The three predicates of the data model on a collection.\<close>

definition ids_unique :: "employee list \<Rightarrow> bool" where
  "ids_unique employees = distinct (map id_emp employees)"

definition nonempty_string :: "jsval \<Rightarrow> bool" where
  "nonempty_string v = (case v of JStr s \<Rightarrow> s \<noteq> [] | _ \<Rightarrow> False)"

definition ten_digit_string :: "jsval \<Rightarrow> bool" where
  "ten_digit_string v = (case v of JStr s \<Rightarrow> ten_digits s | _ \<Rightarrow> False)"

definition names_nonempty :: "employee list \<Rightarrow> bool" where
  "names_nonempty employees =
     list_all (\<lambda>e. nonempty_string (name e) \<and> nonempty_string (email e)) employees"

definition phones_normalized :: "employee list \<Rightarrow> bool" where
  "phones_normalized employees = list_all (\<lambda>e. ten_digit_string (phone e)) employees"

definition collection_valid :: "employee list \<Rightarrow> bool" where
  "collection_valid employees =
     (ids_unique employees \<and> names_nonempty employees \<and> phones_normalized employees)"

section \<open>Example data\<close>

definition ann_input :: jsobject where
  "ann_input = empty_object
     (''name'' := JStr ''Ann'', ''email'' := JStr ''a@x.com'', ''phone'' := JStr ''555-123-4567'')"

definition ann :: employee where
  "ann = \<lparr> id_emp = 1, name = JStr ''Ann'', email = JStr ''a@x.com'',
           phone = JStr ''5551234567'', role = JStr [], department = JStr [],
           salary = JNum 0, date_of_joining = JStr [], status = JStr ''Active'' \<rparr>"

definition bob :: employee where
  "bob = \<lparr> id_emp = 3, name = JStr ''Bob'', email = JStr ''b@x.com'',
           phone = JStr ''5559876543'', role = JStr ''Tester'', department = JStr ''QA'',
           salary = JNum 50000, date_of_joining = JStr ''2024-01-15'',
           status = JStr ''Active'' \<rparr>"

definition carol_input :: jsobject where
  "carol_input = empty_object
     (''name'' := JStr ''Carol'', ''email'' := JStr ''c@x.com'',
      ''phone'' := JStr ''(555) 222-3333'', ''role'' := JStr ''Engineer'',
      ''department'' := JStr ''IT'', ''salary'' := JNum 72000,
      ''date_of_joining'' := JStr ''2025-03-01'', ''status'' := JStr ''Inactive'')"

definition carol :: employee where
  "carol = \<lparr> id_emp = 4, name = JStr ''Carol'', email = JStr ''c@x.com'',
             phone = JStr ''5552223333'', role = JStr ''Engineer'', department = JStr ''IT'',
             salary = JNum 72000, date_of_joining = JStr ''2025-03-01'',
             status = JStr ''Inactive'' \<rparr>"

text \<open>A partial input that changes the phone and the role.\<close>

definition bob_input :: jsobject where
  "bob_input = empty_object
     (''phone'' := JStr ''555.000.1111'', ''role'' := JStr ''Lead'')"

text \<open>The file after a collection of two records has been saved.\<close>

definition stored :: document where
  "stored = saveEmployees json [ann, bob] Absent"

text \<open>A stand-in for the email check of the schema library.\<close>

definition has_at_sign :: "string \<Rightarrow> bool" where
  "has_at_sign s = (CHR ''@'' \<in> set s)"

section \<open>Doubles and the digits of a number\<close>

lemma ulp_small: "a < 2 ^ 53 \<Longrightarrow> ulp a = 1"
  by (subst ulp.simps) simp

lemma ulp_at_limit: "ulp 9007199254740992 = 2"
  by (subst ulp.simps) (simp add: ulp_small)

lemma double_round_exact: "\<bar>x\<bar> \<le> 2 ^ 53 \<Longrightarrow> double_round x = x"
proof (cases "\<bar>x\<bar> < 2 ^ 53")
  case True
  then show ?thesis
    by (simp add: double_round_def ulp_small Let_def) (simp add: sgn_if)
next
  case False
  assume "\<bar>x\<bar> \<le> 2 ^ 53"
  with False have a: "\<bar>x\<bar> = 2 ^ 53" by simp
  then have "x = 2 ^ 53 \<or> x = - (2 ^ 53)" by linarith
  then show ?thesis
    using a by (auto simp: double_round_def ulp_at_limit Let_def)
qed

lemma js_add_safe: "safe_integer a \<Longrightarrow> js_add a 1 = a + 1"
  by (simp add: js_add_def safe_integer_def double_round_exact)

lemma js_add_at_limit: "js_add (2 ^ 53) 1 = 2 ^ 53"
proof -
  have u: "ulp 9007199254740993 = 2"
    by (subst ulp.simps) (simp add: ulp_small)
  show ?thesis
    by (simp add: js_add_def double_round_def u Let_def)
qed

lemma digit_char:
  assumes "0 \<le> m" "m < 10"
  shows "is_digit (''0123456789'' ! nat m)"
    and "of_char (''0123456789'' ! nat m) = 48 + m"
proof -
  from assms have "m = 0 \<or> m = 1 \<or> m = 2 \<or> m = 3 \<or> m = 4 \<or> m = 5 \<or> m = 6 \<or> m = 7
                   \<or> m = 8 \<or> m = 9"
    by arith
  then show "is_digit (''0123456789'' ! nat m)"
    and "of_char (''0123456789'' ! nat m) = 48 + m"
    by (auto simp: is_digit_def)
qed

lemma digits_of_digits: "0 \<le> a \<Longrightarrow> list_all is_digit (digits_of a)"
proof (induction a rule: digits_of.induct)
  case (1 n)
  show ?case
  proof (cases "n < 10")
    case True
    then show ?thesis
      using "1.prems" by (subst digits_of.simps) (simp add: digit_char)
  next
    case False
    then have "list_all is_digit (digits_of (n div 10))"
      using "1.IH" "1.prems" by simp
    moreover have "is_digit (''0123456789'' ! nat (n mod 10))"
      by (rule digit_char) simp_all
    ultimately show ?thesis
      using False by (subst digits_of.simps) simp
  qed
qed

lemma digits_of_nonempty: "digits_of a \<noteq> []"
  by (subst digits_of.simps) simp

lemma digits_value_snoc:
  "digits_value (ds @ [c]) = 10 * digits_value ds + (of_char c - 48)"
  by (simp add: digits_value_def)

lemma digits_value_digits_of: "0 \<le> a \<Longrightarrow> digits_value (digits_of a) = a"
proof (induction a rule: digits_of.induct)
  case (1 n)
  show ?case
  proof (cases "n < 10")
    case True
    then show ?thesis
      using "1.prems" by (subst digits_of.simps) (simp add: digits_value_def digit_char)
  next
    case False
    then have ih: "digits_value (digits_of (n div 10)) = n div 10"
      using "1.IH" "1.prems" by simp
    have "of_char (''0123456789'' ! nat (n mod 10)) = 48 + n mod 10"
      by (rule digit_char) simp_all
    then show ?thesis
      using False ih by (subst digits_of.simps) (simp add: digits_value_snoc)
  qed
qed

lemma digits_of_single: "0 \<le> a \<Longrightarrow> a < 10 \<Longrightarrow> length (digits_of a) = 1"
  by (subst digits_of.simps) simp

lemma digits_of_leading: "10 \<le> a \<Longrightarrow> hd (digits_of a) \<noteq> CHR ''0'' \<and> length (digits_of a) \<noteq> 1"
proof (induction a rule: digits_of.induct)
  case (1 n)
  let ?m = "n div 10"
  have m: "1 \<le> ?m" using "1.prems" by simp
  have unfold: "digits_of n = digits_of ?m @ [''0123456789'' ! nat (n mod 10)]"
    using "1.prems" by (subst digits_of.simps) simp
  show ?case
  proof (cases "?m < 10")
    case True
    then have "?m = 1 \<or> ?m = 2 \<or> ?m = 3 \<or> ?m = 4 \<or> ?m = 5 \<or> ?m = 6 \<or> ?m = 7 \<or> ?m = 8
                 \<or> ?m = 9"
      using m by arith
    then have "hd (digits_of ?m) \<noteq> CHR ''0''" "digits_of ?m \<noteq> []"
      by (auto simp: digits_of.simps [of ?m])
    then show ?thesis using unfold by simp
  next
    case False
    then have "hd (digits_of ?m) \<noteq> CHR ''0''"
      using "1.IH" "1.prems" by simp
    then show ?thesis using unfold digits_of_nonempty [of ?m] by simp
  qed
qed

lemma number_to_string_safe:
  assumes "\<bar>n\<bar> \<le> 2 ^ 53"
  shows "number_to_string n = (if n < 0 then CHR ''-'' # digits_of (- n) else digits_of n)"
proof -
  have "magnitude_to_string a = digits_of a" if "a \<le> 2 ^ 53" for a
    using that unfolding magnitude_to_string_def by (rule if_P)
  moreover have "n \<le> 2 ^ 53" "- n \<le> 2 ^ 53" using assms by linarith+
  ultimately show ?thesis by (simp add: number_to_string_def)
qed

lemma minus_not_digit: "\<not> is_digit CHR ''-''"
  by (simp add: is_digit_def)

lemma number_token_digits:
  assumes "0 \<le> a" "a \<le> 2 ^ 53"
  shows "number_token (digits_of a) = Some (Lit (JNum a))"
    and "number_token (CHR ''-'' # digits_of a) = Some (Lit (JNum (- a)))"
proof -
  have lead: "\<not> (hd (digits_of a) = CHR ''0'' \<and> length (digits_of a) \<noteq> 1)"
    using digits_of_single [of a] digits_of_leading [of a] assms(1) by (cases "a < 10") auto
  have nm: "hd (digits_of a) \<noteq> CHR ''-''"
    using digits_of_digits [OF assms(1)] digits_of_nonempty [of a] minus_not_digit
    by (cases "digits_of a") auto
  have r: "double_round a = a" "double_round (- a) = - a"
    using assms by (simp_all add: double_round_exact)
  show "number_token (digits_of a) = Some (Lit (JNum a))"
    using lead nm assms(1) r
    by (simp add: number_token_def digits_of_nonempty digits_of_digits digits_value_digits_of
        Let_def)
  show "number_token (CHR ''-'' # digits_of a) = Some (Lit (JNum (- a)))"
    using lead assms(1) r
    by (simp add: number_token_def digits_of_nonempty digits_of_digits digits_value_digits_of
        Let_def)
qed

lemma number_token_number:
  assumes "\<bar>n\<bar> \<le> 2 ^ 53"
  shows "number_token (number_to_string n) = Some (Lit (JNum n))"
proof (cases "n < 0")
  case True
  then have "0 \<le> - n" "- n \<le> 2 ^ 53" using assms by linarith+
  then have "number_token (CHR ''-'' # digits_of (- n)) = Some (Lit (JNum (- (- n))))"
    by (rule number_token_digits)
  then show ?thesis using True assms by (simp add: number_to_string_safe)
next
  case False
  then have "0 \<le> n" "n \<le> 2 ^ 53" using assms by linarith+
  then have "number_token (digits_of n) = Some (Lit (JNum n))"
    by (rule number_token_digits)
  then show ?thesis using False assms by (simp add: number_to_string_safe)
qed

text \<open>\<open>String\<close> on numbers below and above \<open>1e21\<close>, and the digits of a numeric phone.\<close>

lemma number_to_string_examples:
  "number_to_string 100000000000000000000 = ''100000000000000000000''"
  "number_to_string 1000000000000000000000 = ''1e+21''"
  "number_to_string (- 9007199254740992) = ''-9007199254740992''"
  "double_round 123456780000000000000000000000 = 123456780000000005031294140416"
  "number_to_string 123456780000000005031294140416 = ''1.2345678e+29''"
  by code_simp+

lemma numeric_phone_digits:
  "phone_digits (JNum 123456780000000005031294140416) = ''1234567829''"
  by code_simp

section \<open>The written text is read back\<close>

lemma lex_run_append:
  "lex_run st xs = Some (ts, st') \<Longrightarrow> lex_run st' ys = Some (ts', st'') \<Longrightarrow>
     lex_run st (xs @ ys) = Some (ts @ ts', st'')"
proof (induction xs arbitrary: st ts)
  case Nil
  then show ?case by simp
next
  case (Cons c cs)
  from Cons.prems(1) obtain t1 s1 t2 where
    a: "lex_step st c = Some (t1, s1)" "lex_run s1 cs = Some (t2, st')" "ts = t1 @ t2"
    by (auto split: option.splits prod.splits)
  from Cons.IH [OF a(2) Cons.prems(2)] have "lex_run s1 (cs @ ys) = Some (t2 @ ts', st'')" .
  then show ?case using a by simp
qed

lemma hex_value_hex_digit: "m < 16 \<Longrightarrow> hex_value (hex_digit m) = Some m"
proof -
  assume "m < 16"
  then have "m = 0 \<or> m = 1 \<or> m = 2 \<or> m = 3 \<or> m = 4 \<or> m = 5 \<or> m = 6 \<or> m = 7 \<or> m = 8
             \<or> m = 9 \<or> m = 10 \<or> m = 11 \<or> m = 12 \<or> m = 13 \<or> m = 14 \<or> m = 15"
    by arith
  then show ?thesis
    by (elim disjE) (simp_all add: hex_value_def hex_digit_def)
qed

lemma lex_escape_char:
  "lex_run (InString acc) (escape_char c) = Some ([], InString (c # acc))"
proof -
  consider (special) "c \<in> {CHR 0x22, CHR 0x5C, CHR 0x08, CHR 0x09, CHR 0x0A, CHR 0x0C, CHR 0x0D}"
    | (control) "c \<notin> {CHR 0x22, CHR 0x5C, CHR 0x08, CHR 0x09, CHR 0x0A, CHR 0x0C, CHR 0x0D}"
        "(of_char c :: nat) < 32"
    | (plain) "c \<notin> {CHR 0x22, CHR 0x5C, CHR 0x08, CHR 0x09, CHR 0x0A, CHR 0x0C, CHR 0x0D}"
        "\<not> (of_char c :: nat) < 32"
    by blast
  then show ?thesis
  proof cases
    case special
    then show ?thesis
      by (auto simp: escape_char_def unescape_def)
  next
    case control
    let ?n = "of_char c :: nat"
    have h: "hex_value (hex_digit (?n div 16)) = Some (?n div 16)"
      "hex_value (hex_digit (?n mod 16)) = Some (?n mod 16)"
      using control(2) by (simp_all add: hex_value_hex_digit)
    have z: "hex_value CHR ''0'' = Some 0" by (simp add: hex_value_def)
    have esc: "escape_char c = [CHR 0x5C, CHR ''u'', CHR ''0'', CHR ''0'',
                                hex_digit (?n div 16), hex_digit (?n mod 16)]"
      using control by (simp add: escape_char_def)
    have "16 * (?n div 16) + ?n mod 16 = ?n" by simp
    moreover have "?n < 256" using control(2) by simp
    ultimately show ?thesis
      using control(1) h z by (simp add: esc)
  next
    case plain
    then show ?thesis
      by (simp add: escape_char_def)
  qed
qed

lemma lex_string_body:
  "lex_run (InString acc) (concat (map escape_char s)) = Some ([], InString (rev s @ acc))"
proof (induction s arbitrary: acc)
  case Nil
  then show ?case by simp
next
  case (Cons c s)
  from lex_run_append [OF lex_escape_char [of acc c] Cons.IH [of "c # acc"]]
  show ?case by simp
qed

lemma lex_quote: "lex_run Idle (quote s) = Some ([Lit (JStr s)], Idle)"
proof -
  have open_q: "lex_run Idle [CHR 0x22] = Some ([], InString [])"
    by (simp add: idle_step_def)
  have close_q: "lex_run (InString (rev s)) [CHR 0x22] = Some ([Lit (JStr s)], Idle)"
    by simp
  from lex_run_append [OF open_q lex_run_append [OF lex_string_body [of "[]" s, simplified] close_q]]
  show ?thesis by (simp add: quote_def)
qed

lemma lex_digits:
  "list_all is_digit ds \<Longrightarrow> lex_run (InNumber acc) ds = Some ([], InNumber (rev ds @ acc))"
  by (induction ds arbitrary: acc) simp_all

lemma idle_step_digit: "is_digit c \<Longrightarrow> idle_step c = Some ([], InNumber [c])"
  by (auto simp: idle_step_def is_digit_def)

lemma idle_step_minus: "idle_step CHR ''-'' = Some ([], InNumber [CHR ''-''])"
  by (simp add: idle_step_def)

lemma lex_number_start:
  assumes "\<bar>n\<bar> \<le> 2 ^ 53"
  shows "lex_run Idle (number_to_string n) = Some ([], InNumber (rev (number_to_string n)))"
proof -
  have pos: "lex_run Idle (digits_of a) = Some ([], InNumber (rev (digits_of a)))"
    if "0 \<le> a" for a
  proof -
    obtain d ds where dd: "digits_of a = d # ds"
      using digits_of_nonempty [of a] by (cases "digits_of a") auto
    then have "is_digit d" "list_all is_digit ds"
      using digits_of_digits [OF that] by simp_all
    then show ?thesis
      using dd by (simp add: idle_step_digit lex_digits)
  qed
  show ?thesis
  proof (cases "n < 0")
    case True
    then have "list_all is_digit (digits_of (- n))"
      by (intro digits_of_digits) simp
    then show ?thesis
      using True assms by (simp add: number_to_string_safe idle_step_minus lex_digits)
  next
    case False
    then show ?thesis using assms pos [of n] by (simp add: number_to_string_safe)
  qed
qed

lemma lex_number_then:
  assumes "\<bar>n\<bar> \<le> 2 ^ 53" "idle_step c = Some (ts, Idle)" "\<not> is_digit c"
  shows "lex_run Idle (number_to_string n @ [c]) = Some (Lit (JNum n) # ts, Idle)"
proof -
  have "lex_run (InNumber (rev (number_to_string n))) [c] = Some (Lit (JNum n) # ts, Idle)"
    using assms by (simp add: number_token_number)
  from lex_run_append [OF lex_number_start [OF assms(1)] this]
  show ?thesis by simp
qed

lemma lex_word_then:
  assumes "idle_step c = Some (ts, Idle)" "\<not> is_lower c"
  shows "lex_run Idle (''true'' @ [c]) = Some (Lit (JBool True) # ts, Idle)"
    and "lex_run Idle (''false'' @ [c]) = Some (Lit (JBool False) # ts, Idle)"
    and "lex_run Idle (''null'' @ [c]) = Some (Lit JNull # ts, Idle)"
  using assms by (simp_all add: idle_step_def is_lower_def is_digit_def word_token_def)

lemma lex_value_then:
  assumes "v \<noteq> JUndefined" "safe_value v"
    and "idle_step c = Some (ts, Idle)" "\<not> is_digit c" "\<not> is_lower c"
  shows "lex_run Idle (json_value v @ [c]) = Some (Lit v # ts, Idle)"
proof (cases v)
  case JUndefined
  then show ?thesis using assms(1) by simp
next
  case JNull
  then show ?thesis using lex_word_then(3) [OF assms(3,5)] by simp
next
  case (JBool b)
  then show ?thesis
    using lex_word_then(1) [OF assms(3,5)] lex_word_then(2) [OF assms(3,5)] by (cases b) simp_all
next
  case (JNum n)
  then have s: "\<bar>n\<bar> < 2 ^ 53" using assms(2) by (simp add: safe_value_def safe_integer_def)
  then have "double_round \<bar>n\<bar> = \<bar>n\<bar>" by (intro double_round_exact) simp
  moreover have "(2::int) ^ 53 < 2 ^ 1024" by (rule power_strict_increasing) simp_all
  ultimately have "\<not> 2 ^ 1024 \<le> double_round \<bar>n\<bar>" using s by linarith
  then have "json_value v = number_to_string n" using JNum by simp
  moreover have "\<bar>n\<bar> \<le> 2 ^ 53" using s by simp
  ultimately show ?thesis
    using JNum lex_number_then [OF _ assms(3,4)] by simp
next
  case (JStr s)
  have "lex_run Idle [c] = Some (ts, Idle)" using assms(3) by simp
  from lex_run_append [OF lex_quote [of s] this]
  show ?thesis using JStr by simp
qed

lemma lex_spaces:
  "list_all (\<lambda>c. c = CHR '' '') sp \<Longrightarrow> lex_run Idle sp = Some ([], Idle)"
  by (induction sp) (simp_all add: idle_step_def)

lemma comma_delimiter:
  "idle_step CHR '','' = Some ([Comma], Idle)" "\<not> is_digit CHR '',''" "\<not> is_lower CHR '',''"
  by (simp_all add: idle_step_def is_digit_def is_lower_def)

lemma newline_delimiter:
  "idle_step (CHR 0x0A) = Some ([], Idle)" "\<not> is_digit (CHR 0x0A)" "\<not> is_lower (CHR 0x0A)"
  by (simp_all add: idle_step_def is_digit_def is_lower_def)

lemma lex_field_line:
  assumes "snd kv \<noteq> JUndefined" "safe_value (snd kv)"
    and "list_all (\<lambda>c. c = CHR '' '') indent"
    and "idle_step c = Some (ts, Idle)" "\<not> is_digit c" "\<not> is_lower c"
  shows "lex_run Idle (indent @ ''  '' @ quote (fst kv) @ '': '' @ json_value (snd kv) @ [c])
           = Some (field_tokens kv @ ts, Idle)"
proof -
  have sp: "lex_run Idle (indent @ ''  '') = Some ([], Idle)"
    using assms(3) by (intro lex_spaces) simp
  have colon: "lex_run Idle '': '' = Some ([Colon], Idle)"
    by (simp add: idle_step_def)
  note val = lex_value_then [OF assms(1,2,4,5,6)]
  from lex_run_append [OF sp lex_run_append [OF lex_quote lex_run_append [OF colon val]]]
  show ?thesis by (simp add: field_tokens_def)
qed

lemma lex_fields:
  assumes "list_all (\<lambda>c. c = CHR '' '') indent"
  shows "xs \<noteq> [] \<Longrightarrow> list_all (\<lambda>kv. snd kv \<noteq> JUndefined \<and> safe_value (snd kv)) xs \<Longrightarrow>
     lex_run Idle
       (join ('','' @ [CHR 0x0A])
          (map (\<lambda>kv. indent @ ''  '' @ quote (fst kv) @ '': '' @ json_value (snd kv)) xs)
        @ [CHR 0x0A])
       = Some (sep_tokens (map field_tokens xs), Idle)"
proof (induction xs rule: induct_list012)
  case 1
  then show ?case by simp
next
  case (2 x)
  then show ?case
    using lex_field_line [OF _ _ assms newline_delimiter, of x] by simp
next
  case (3 x y zs)
  let ?line = "\<lambda>kv. indent @ ''  '' @ quote (fst kv) @ '': '' @ json_value (snd kv)"
  have first: "lex_run Idle (?line x @ '','') = Some (field_tokens x @ [Comma], Idle)"
    using "3.prems" lex_field_line [OF _ _ assms comma_delimiter, of x] by simp
  have nl: "lex_run Idle [CHR 0x0A] = Some ([], Idle)"
    by (simp add: idle_step_def)
  have rest: "lex_run Idle (join ('','' @ [CHR 0x0A]) (map ?line (y # zs)) @ [CHR 0x0A])
                = Some (sep_tokens (map field_tokens (y # zs)), Idle)"
    using "3.IH"(2) "3.prems" by simp
  from lex_run_append [OF first lex_run_append [OF nl rest]]
  show ?case by simp
qed

lemma present_fields_nonempty: "present_fields e \<noteq> []"
  by (simp add: present_fields_def employee_fields_def)

lemma present_fields_safe:
  "safe_employee e \<Longrightarrow>
     list_all (\<lambda>kv. snd kv \<noteq> JUndefined \<and> safe_value (snd kv)) (present_fields e)"
  by (simp add: present_fields_def employee_fields_def safe_employee_def safe_value_def
      list_all_iff)

lemma lex_object:
  assumes "safe_employee e" "list_all (\<lambda>c. c = CHR '' '') indent"
  shows "lex_run Idle (stringify_object indent (employee_fields e))
           = Some (object_tokens e, Idle)"
proof -
  let ?line = "\<lambda>kv. indent @ ''  '' @ quote (fst kv) @ '': '' @ json_value (snd kv)"
  have shape: "stringify_object indent (employee_fields e)
                = ''{'' @ [CHR 0x0A]
                  @ (join ('','' @ [CHR 0x0A]) (map ?line (present_fields e)) @ [CHR 0x0A])
                  @ indent @ ''}''"
    using present_fields_nonempty [of e]
    by (simp add: stringify_object_def present_fields_def Let_def)
  have open_b: "lex_run Idle (''{'' @ [CHR 0x0A]) = Some ([LBrace], Idle)"
    by (simp add: idle_step_def)
  have fields: "lex_run Idle (join ('','' @ [CHR 0x0A]) (map ?line (present_fields e)) @ [CHR 0x0A])
                  = Some (sep_tokens (map field_tokens (present_fields e)), Idle)"
    using lex_fields [OF assms(2) present_fields_nonempty present_fields_safe [OF assms(1)]] .
  have ind: "lex_run Idle indent = Some ([], Idle)"
    using assms(2) by (rule lex_spaces)
  have close_b: "lex_run Idle ''}'' = Some ([RBrace], Idle)"
    by (simp add: idle_step_def)
  from lex_run_append [OF open_b lex_run_append [OF fields lex_run_append [OF ind close_b]]]
  show ?thesis by (simp add: shape object_tokens_def)
qed

lemma lex_objects:
  "es \<noteq> [] \<Longrightarrow> list_all safe_employee es \<Longrightarrow>
     lex_run Idle
       (join ('','' @ [CHR 0x0A])
          (map (\<lambda>e. ''  '' @ stringify_object ''  '' (employee_fields e)) es))
       = Some (sep_tokens (map object_tokens es), Idle)"
proof (induction es rule: induct_list012)
  case 1
  then show ?case by simp
next
  case (2 x)
  have sp: "lex_run Idle ''  '' = Some ([], Idle)" by (simp add: idle_step_def)
  have "lex_run Idle (stringify_object ''  '' (employee_fields x)) = Some (object_tokens x, Idle)"
    using "2.prems" by (intro lex_object) simp_all
  from lex_run_append [OF sp this] show ?case by simp
next
  case (3 x y zs)
  let ?obj = "\<lambda>e. ''  '' @ stringify_object ''  '' (employee_fields e)"
  have sp: "lex_run Idle ''  '' = Some ([], Idle)" by (simp add: idle_step_def)
  have "lex_run Idle (stringify_object ''  '' (employee_fields x)) = Some (object_tokens x, Idle)"
    using "3.prems" by (intro lex_object) simp_all
  from lex_run_append [OF sp this]
  have first: "lex_run Idle (?obj x) = Some (object_tokens x, Idle)" by simp
  have sep: "lex_run Idle ('','' @ [CHR 0x0A]) = Some ([Comma], Idle)"
    by (simp add: idle_step_def)
  have rest: "lex_run Idle (join ('','' @ [CHR 0x0A]) (map ?obj (y # zs)))
                = Some (sep_tokens (map object_tokens (y # zs)), Idle)"
    using "3.IH"(2) "3.prems" by simp
  from lex_run_append [OF first lex_run_append [OF sep rest]]
  show ?case by simp
qed

lemma lex_employees:
  assumes "list_all safe_employee es"
  shows "lex Idle (stringify_employees es)
           = Some (LBracket # sep_tokens (map object_tokens es) @ [RBracket])"
proof (cases "es = []")
  case True
  then show ?thesis by (simp add: stringify_employees_def lex_def idle_step_def)
next
  case False
  have open_b: "lex_run Idle (''['' @ [CHR 0x0A]) = Some ([LBracket], Idle)"
    by (simp add: idle_step_def)
  have close_b: "lex_run Idle ([CHR 0x0A] @ '']'') = Some ([RBracket], Idle)"
    by (simp add: idle_step_def)
  from lex_run_append [OF open_b lex_run_append [OF lex_objects [OF False assms] close_b]]
  show ?thesis using False by (simp add: stringify_employees_def lex_def)
qed

subsection \<open>Parsing the tokens\<close>

lemma field_of_rev_present:
  "distinct (map fst kvs) \<Longrightarrow>
     field_of (rev (filter (\<lambda>kv. snd kv \<noteq> JUndefined) kvs)) k = field_of kvs k"
proof (induction kvs)
  case Nil
  then show ?case by simp
next
  case (Cons x xs)
  then have ih: "field_of (rev (filter (\<lambda>kv. snd kv \<noteq> JUndefined) xs)) k = field_of xs k"
    by simp
  have absent: "map_of (rev (filter (\<lambda>kv. snd kv \<noteq> JUndefined) xs)) (fst x) = None"
    using Cons.prems by (auto simp: map_of_eq_None_iff)
  show ?case
  proof (cases "fst x = k")
    case True
    then have "map_of xs k = None" using Cons.prems by (auto simp: map_of_eq_None_iff)
    then show ?thesis
      using True absent by (cases x) (auto simp: field_of_def map_add_def split: option.splits)
  next
    case False
    then show ?thesis
      using ih by (cases x) (auto simp: field_of_def map_add_def split: option.splits)
  qed
qed

lemma build_present:
  fixes e :: employee
  shows "build_employee (rev (present_fields e)) = Some e"
proof -
  have d: "distinct (map fst (employee_fields e))"
    by (simp add: employee_fields_def)
  have f: "field_of (rev (present_fields e)) k = field_of (employee_fields e) k" for k
    unfolding present_fields_def using d by (rule field_of_rev_present)
  have v: "field_of (employee_fields e) ''id'' = JNum (id_emp e)"
    "field_of (employee_fields e) ''name'' = name e"
    "field_of (employee_fields e) ''email'' = email e"
    "field_of (employee_fields e) ''phone'' = phone e"
    "field_of (employee_fields e) ''role'' = role e"
    "field_of (employee_fields e) ''department'' = department e"
    "field_of (employee_fields e) ''salary'' = salary e"
    "field_of (employee_fields e) ''date_of_joining'' = date_of_joining e"
    "field_of (employee_fields e) ''status'' = status e"
    by (simp_all add: field_of_def employee_fields_def)
  show ?thesis
    by (simp add: build_employee_def f v)
qed

lemma parse_field:
  "parse_tokens (AfterFieldComma es acc) (field_tokens kv @ ts)
     = parse_tokens (AfterValue es (kv # acc)) ts"
  "parse_tokens (ObjectOpen es acc) (field_tokens kv @ ts)
     = parse_tokens (AfterValue es (kv # acc)) ts"
  by (cases kv, simp add: field_tokens_def parse_step_def)+

lemma parse_fields_tail:
  "xs \<noteq> [] \<Longrightarrow>
     parse_tokens (AfterFieldComma es acc) (sep_tokens (map field_tokens xs) @ RBrace # rest)
       = (case build_employee (rev xs @ acc) of
            None \<Rightarrow> None
          | Some e \<Rightarrow> parse_tokens (AfterObject (es @ [e])) rest)"
proof (induction xs arbitrary: acc rule: induct_list012)
  case 1
  then show ?case by simp
next
  case (2 x)
  show ?case
    by (simp add: parse_field parse_step_def close_object_def split: option.split)
next
  case (3 x y zs)
  have "parse_tokens (AfterFieldComma es acc)
          (sep_tokens (map field_tokens (x # y # zs)) @ RBrace # rest)
        = parse_tokens (AfterFieldComma es (x # acc))
          (sep_tokens (map field_tokens (y # zs)) @ RBrace # rest)"
    by (simp add: parse_field parse_step_def)
  then show ?case using "3.IH"(2) [of "x # acc"] by simp
qed

lemma parse_object:
  "parse_tokens st (object_tokens e @ rest) = parse_tokens (AfterObject (es @ [e])) rest"
  if "st = ArrayOpen \<and> es = [] \<or> st = AfterObjectComma es"
proof -
  obtain x xs where p: "present_fields e = x # xs"
    using present_fields_nonempty [of e] by (cases "present_fields e") auto
  have start: "parse_tokens st (object_tokens e @ rest)
                 = parse_tokens (ObjectOpen es [])
                     (sep_tokens (map field_tokens (x # xs)) @ RBrace # rest)"
    using that by (auto simp: parse_step_def object_tokens_def p)
  have "parse_tokens (ObjectOpen es []) (sep_tokens (map field_tokens (x # xs)) @ RBrace # rest)
          = (case build_employee (rev (x # xs) @ []) of
               None \<Rightarrow> None
             | Some e \<Rightarrow> parse_tokens (AfterObject (es @ [e])) rest)"
  proof (cases xs)
    case Nil
    then show ?thesis
      by (simp add: parse_field parse_step_def close_object_def split: option.split)
  next
    case (Cons y zs)
    have "parse_tokens (ObjectOpen es [])
            (sep_tokens (map field_tokens (x # y # zs)) @ RBrace # rest)
          = parse_tokens (AfterFieldComma es [x])
            (sep_tokens (map field_tokens (y # zs)) @ RBrace # rest)"
      by (simp add: parse_field parse_step_def)
    then show ?thesis
      using Cons parse_fields_tail [of "y # zs" es "[x]" rest] by simp
  qed
  then show ?thesis
    using p build_present [of e] by (simp only: start rev.simps append_Nil2) simp
qed

lemma parse_objects:
  "es \<noteq> [] \<Longrightarrow> st = ArrayOpen \<and> acc = [] \<or> st = AfterObjectComma acc \<Longrightarrow>
     parse_tokens st (sep_tokens (map object_tokens es) @ [RBracket]) = Some (acc @ es)"
proof (induction es arbitrary: st acc rule: induct_list012)
  case 1
  then show ?case by simp
next
  case (2 x)
  then show ?case
    using parse_object [of st acc x "[RBracket]"] by (simp add: parse_step_def)
next
  case (3 x y zs)
  have "parse_tokens st (sep_tokens (map object_tokens (x # y # zs)) @ [RBracket])
          = parse_tokens (AfterObject (acc @ [x]))
              (Comma # sep_tokens (map object_tokens (y # zs)) @ [RBracket])"
    using "3.prems"(2) parse_object [of st acc x] by simp
  also have "\<dots> = parse_tokens (AfterObjectComma (acc @ [x]))
                      (sep_tokens (map object_tokens (y # zs)) @ [RBracket])"
    by (simp add: parse_step_def)
  also have "\<dots> = Some ((acc @ [x]) @ y # zs)"
    by (rule "3.IH"(2)) simp_all
  finally show ?case by simp
qed

lemma json_reads_back:
  assumes "list_all safe_employee es"
  shows "parse_employees (stringify_employees es) = Some es"
proof (cases "es = []")
  case True
  then show ?thesis
    using lex_employees [OF assms] by (simp add: parse_employees_def parse_step_def)
next
  case False
  have "parse_tokens Start (LBracket # sep_tokens (map object_tokens es) @ [RBracket])
          = parse_tokens ArrayOpen (sep_tokens (map object_tokens es) @ [RBracket])"
    by (simp add: parse_step_def)
  also have "\<dots> = Some ([] @ es)"
    using False by (intro parse_objects) simp_all
  finally show ?thesis
    using lex_employees [OF assms] by (simp add: parse_employees_def)
qed

lemma json_text_not_blank: "\<not> blank (stringify_employees es)"
  by (simp add: stringify_employees_def blank_def is_whitespace_def)

section \<open>Strings, lists and the greatest identifier\<close>

lemma loadEmployees_returns: "\<exists>employees. loadEmployees J doc = Inr employees"
  by (simp add: loadEmployees_def split: sum.split)

lemma all_dropWhile: "(\<forall>x \<in> set (dropWhile P xs). P x) \<longleftrightarrow> (\<forall>x \<in> set xs. P x)"
  by (induction xs) auto

lemma trim_empty_iff: "trim s = [] \<longleftrightarrow> blank s"
  by (simp add: trim_def blank_def dropWhile_eq_Nil_conv list_all_iff all_dropWhile)

lemma digit_not_whitespace: "is_whitespace c \<Longrightarrow> \<not> is_digit c"
  by (auto simp: is_whitespace_def is_digit_def)

lemma filter_dropWhile_disjoint:
  "(\<And>x. Q x \<Longrightarrow> \<not> P x) \<Longrightarrow> filter P (dropWhile Q xs) = filter P xs"
  by (induction xs) auto

lemma strip_trim: "strip_non_digits (trim s) = strip_non_digits s"
proof -
  have "filter is_digit (dropWhile is_whitespace xs) = filter is_digit xs" for xs
    by (rule filter_dropWhile_disjoint) (rule digit_not_whitespace)
  then show ?thesis
    by (simp add: strip_non_digits_def trim_def flip: rev_filter)
qed

lemma strip_idem: "strip_non_digits (strip_non_digits s) = strip_non_digits s"
  by (simp add: strip_non_digits_def)

lemma phone_digits_JStr: "phone_digits (JStr p) = strip_non_digits p"
  by (simp add: phone_digits_def js_or_def strip_trim)

lemma getNextId_Nil: "getNextId [] = 1"
  by (simp add: getNextId_def)

lemma Max_id_safe:
  assumes "employees \<noteq> []" "ids_safe employees"
  shows "safe_integer (Max (id_emp ` set employees))"
proof -
  have "Max (id_emp ` set employees) \<in> id_emp ` set employees"
    using assms(1) by (intro Max_in) auto
  then show ?thesis using assms(2) by (auto simp: ids_safe_def list_all_iff)
qed

lemma getNextId_Max:
  "employees \<noteq> [] \<Longrightarrow> ids_safe employees \<Longrightarrow>
     getNextId employees = Max (id_emp ` set employees) + 1"
  using Max_id_safe [of employees] by (simp add: getNextId_def js_add_safe)

lemma getNextId_greater:
  assumes "ids_safe employees" "e \<in> set employees"
  shows "id_emp e < getNextId employees"
proof -
  have "employees \<noteq> []" using assms(2) by auto
  moreover have "id_emp e \<le> Max (id_emp ` set employees)" using assms(2) by simp
  ultimately show ?thesis using assms(1) by (simp add: getNextId_Max)
qed

lemma getNextId_attained:
  assumes "employees \<noteq> []" "ids_safe employees"
  shows "\<exists>e \<in> set employees. getNextId employees = id_emp e + 1"
proof -
  have "Max (id_emp ` set employees) \<in> id_emp ` set employees"
    using assms(1) by (intro Max_in) auto
  then obtain e where "e \<in> set employees" "Max (id_emp ` set employees) = id_emp e"
    by (elim imageE) simp
  then show ?thesis using assms by (auto simp: getNextId_Max)
qed

lemma filter_fresh_id:
  "ids_safe employees \<Longrightarrow>
     filter (\<lambda>x. id_emp x \<noteq> getNextId employees) employees = employees"
  using getNextId_greater by (fastforce simp: filter_id_conv)

lemma ids_safe_filter: "ids_safe employees \<Longrightarrow> ids_safe (filter P employees)"
  by (simp add: ids_safe_def list_all_iff)

lemma getNextId_after_delete_max:
  assumes "employees \<noteq> []" and "ids_safe employees"
    and "1 \<le> Max (id_emp ` set employees)"
  shows "getNextId (filter (\<lambda>x. id_emp x \<noteq> Max (id_emp ` set employees)) employees)
           \<le> Max (id_emp ` set employees)"
proof -
  let ?m = "Max (id_emp ` set employees)"
  let ?rest = "filter (\<lambda>x. id_emp x \<noteq> ?m) employees"
  show ?thesis
  proof (cases "?rest = []")
    case True
    then show ?thesis using assms(3) by (simp add: getNextId_Nil)
  next
    case False
    then obtain e where e: "e \<in> set ?rest" "getNextId ?rest = id_emp e + 1"
      using getNextId_attained [OF False ids_safe_filter [OF assms(2)]] by blast
    then have "e \<in> set employees" "id_emp e \<noteq> ?m" by auto
    then have "id_emp e \<le> ?m" "id_emp e \<noteq> ?m" by simp_all
    then have "id_emp e < ?m" by linarith
    then show ?thesis using e(2) by linarith
  qed
qed

lemma examples_safe: "safe_employee ann" "safe_employee bob" "safe_employee carol"
  by (simp_all add: safe_employee_def safe_value_def safe_integer_def ann_def bob_def carol_def)

lemma getNextId_ann_bob: "getNextId [ann, bob] = 4"
proof -
  have "ids_safe [ann, bob]"
    by (simp add: ids_safe_def safe_integer_def ann_def bob_def)
  then have "getNextId [ann, bob] = Max (id_emp ` set [ann, bob]) + 1"
    by (intro getNextId_Max) simp_all
  then show ?thesis by (simp add: ann_def bob_def)
qed


lemma findIndex_ge: "- 1 \<le> findIndex P xs"
  by (induction xs) (auto simp: Let_def)

lemma findIndex_none: "\<not> list_ex P xs \<Longrightarrow> findIndex P xs = - 1"
  by (induction xs) (auto simp: Let_def)

lemma findIndex_found:
  "list_ex P xs \<Longrightarrow>
     0 \<le> findIndex P xs \<and> nat (findIndex P xs) < length xs
     \<and> P (xs ! nat (findIndex P xs))
     \<and> (\<forall>j < nat (findIndex P xs). \<not> P (xs ! j))"
proof (induction xs)
  case Nil
  then show ?case by simp
next
  case (Cons x xs)
  show ?case
  proof (cases "P x")
    case True
    then show ?thesis by simp
  next
    case False
    with Cons.prems have ex: "list_ex P xs" by simp
    note ih = Cons.IH [OF ex]
    from ih have nonneg: "0 \<le> findIndex P xs" by simp
    then have idx: "nat (findIndex P xs + 1) = Suc (nat (findIndex P xs))" by simp
    have "\<not> P ((x # xs) ! j)" if "j < Suc (nat (findIndex P xs))" for j
      using that ih False by (cases j) auto
    then show ?thesis using False ih nonneg by (simp add: Let_def idx)
  qed
qed

lemma findIndex_minus_one_iff: "findIndex P xs = - 1 \<longleftrightarrow> \<not> list_ex P xs"
  using findIndex_none [of P xs] findIndex_found [of P xs] by auto

section \<open>Identifier assignment\<close>

text \<open>
  C3, as it is stated for every collection, fails where the arithmetic of doubles is
  not exact: on a collection whose greatest identifier is \<open>2^53\<close>, \<open>getNextId\<close> gives \<open>2^53\<close>
  once more, which is neither the greatest identifier plus one nor above every stored
  identifier.
\<close>

theorem getNextId_at_double_limit:
  "getNextId [ann \<lparr> id_emp := 9007199254740992 \<rparr>] = 9007199254740992
   \<and> Max (id_emp ` set [ann \<lparr> id_emp := 9007199254740992 \<rparr>]) + 1 = 9007199254740993
   \<and> \<not> id_emp (ann \<lparr> id_emp := 9007199254740992 \<rparr>)
         < getNextId [ann \<lparr> id_emp := 9007199254740992 \<rparr>]"
  using js_add_at_limit by (simp add: getNextId_def)

text \<open>
  C3, for collections whose identifiers are safe integers (below \<open>2^53\<close> in magnitude):
  \<open>getNextId\<close> gives 1 on the empty collection and otherwise one more than the
  greatest stored identifier, which some record holds and no record exceeds; on two
  records with the identifiers 1 and 3 it gives 4. The identifiers do not come from a
  counter: when the record that was created last is deleted, the next record gets its
  identifier again, and after the record with the greatest (positive) identifier is
  deleted the next identifier is no greater than the deleted one.
\<close>

theorem getNextId_max_plus_one:
  "getNextId [] = 1
   \<and> (employees \<noteq> [] \<and> ids_safe employees \<longrightarrow>
        getNextId employees = Max (id_emp ` set employees) + 1
        \<and> (\<exists>e \<in> set employees. getNextId employees = id_emp e + 1)
        \<and> (\<forall>e \<in> set employees. id_emp e < getNextId employees))
   \<and> (id_emp a = 1 \<and> id_emp b = 3 \<longrightarrow> getNextId [a, b] = 4)
   \<and> (ids_safe employees \<and> id_emp e = getNextId employees \<longrightarrow>
        getNextId (filter (\<lambda>x. id_emp x \<noteq> id_emp e) (employees @ [e])) = id_emp e)
   \<and> (employees \<noteq> [] \<and> ids_safe employees \<and> 1 \<le> Max (id_emp ` set employees) \<longrightarrow>
        getNextId (filter (\<lambda>x. id_emp x \<noteq> Max (id_emp ` set employees)) employees)
          \<le> Max (id_emp ` set employees))"
proof (intro conjI impI)
  show "getNextId [] = 1" by (rule getNextId_Nil)
next
  assume "employees \<noteq> [] \<and> ids_safe employees"
  then show "getNextId employees = Max (id_emp ` set employees) + 1"
    by (simp add: getNextId_Max)
next
  assume "employees \<noteq> [] \<and> ids_safe employees"
  then show "\<exists>e \<in> set employees. getNextId employees = id_emp e + 1"
    by (simp add: getNextId_attained)
next
  assume "employees \<noteq> [] \<and> ids_safe employees"
  then show "\<forall>e \<in> set employees. id_emp e < getNextId employees"
    by (simp add: getNextId_greater)
next
  assume a: "id_emp a = 1 \<and> id_emp b = 3"
  then have "ids_safe [a, b]" by (simp add: ids_safe_def safe_integer_def)
  then have "getNextId [a, b] = Max (id_emp ` set [a, b]) + 1"
    by (intro getNextId_Max) simp_all
  then show "getNextId [a, b] = 4" using a by simp
next
  assume "ids_safe employees \<and> id_emp e = getNextId employees"
  then show "getNextId (filter (\<lambda>x. id_emp x \<noteq> id_emp e) (employees @ [e])) = id_emp e"
    by (simp add: filter_fresh_id)
next
  assume "employees \<noteq> [] \<and> ids_safe employees \<and> 1 \<le> Max (id_emp ` set employees)"
  then show "getNextId (filter (\<lambda>x. id_emp x \<noteq> Max (id_emp ` set employees)) employees)
          \<le> Max (id_emp ` set employees)"
    by (simp add: getNextId_after_delete_max)
qed

theorem getNextId_max_plus_one_witness:
  "[ann, bob] \<noteq> [] \<and> ids_safe [ann, bob] \<and> getNextId [ann, bob] = 4
   \<and> Max (id_emp ` set [ann, bob]) = 3
   \<and> (\<exists>e \<in> set [ann, bob]. getNextId [ann, bob] = id_emp e + 1)
   \<and> id_emp ann < getNextId [ann, bob] \<and> id_emp bob < getNextId [ann, bob]
   \<and> id_emp ann = 1 \<and> id_emp bob = 3
   \<and> id_emp (ann \<lparr> id_emp := 4 \<rparr>) = getNextId [ann, bob]
   \<and> getNextId (filter (\<lambda>x. id_emp x \<noteq> 4) ([ann, bob] @ [ann \<lparr> id_emp := 4 \<rparr>])) = 4
   \<and> 1 \<le> Max (id_emp ` set [ann, bob])
   \<and> getNextId (filter (\<lambda>x. id_emp x \<noteq> 3) [ann, bob]) = 2"
proof -
  have s: "ids_safe [ann, bob]"
    by (simp add: ids_safe_def safe_integer_def ann_def bob_def)
  have i: "id_emp ann = 1" "id_emp bob = 3" by (simp_all add: ann_def bob_def)
  have one: "getNextId [ann] = 2"
    using getNextId_Max [of "[ann]"] i by (simp add: ids_safe_def safe_integer_def)
  show ?thesis
    using getNextId_max_plus_one [of "[ann, bob]" ann bob "ann \<lparr> id_emp := 4 \<rparr>"]
      s i one getNextId_ann_bob
    by simp
qed


section \<open>Loading and saving\<close>

text \<open>
  C8: \<open>loadEmployees\<close> gives the empty collection when the file is absent, when it
  cannot be read, when its content is empty or only whitespace, and when the content
  fails to parse; on every state of the file it returns a collection and raises
  nothing.
\<close>

theorem loadEmployees_never_raises:
  "loadEmployees J Absent = Inr []
   \<and> loadEmployees J Unreadable = Inr []
   \<and> (blank raw \<longrightarrow> loadEmployees J (Content raw) = Inr [])
   \<and> (JSON_parse J raw' = None \<longrightarrow> loadEmployees J (Content raw') = Inr [])
   \<and> (\<exists>employees. loadEmployees J doc = Inr employees)"
  by (simp add: loadEmployees_def load_try_def existsSync_def readFileSync_def
      parse_document_def trim_empty_iff split: sum.split)

theorem loadEmployees_never_raises_witness:
  "blank [CHR 0x20, CHR 0x0A] \<and> loadEmployees json (Content [CHR 0x20, CHR 0x0A]) = Inr []
   \<and> JSON_parse json ''{oops'' = None \<and> loadEmployees json (Content ''{oops'') = Inr []
   \<and> loadEmployees json Absent = Inr [] \<and> loadEmployees json Unreadable = Inr []"
proof -
  have b: "blank [CHR 0x20, CHR 0x0A]" by (simp add: blank_def is_whitespace_def)
  have p: "JSON_parse json ''{oops'' = None" by (simp add: json_def, code_simp)
  show ?thesis
    using b p loadEmployees_never_raises [of json "[CHR 0x20, CHR 0x0A]" "''{oops''" Absent]
    by simp
qed

lemma load_after_save:
  assumes "JSON_parse J (JSON_stringify J employees) = Some employees"
    and "\<not> blank (JSON_stringify J employees)"
  shows "loadEmployees J (saveEmployees J employees doc) = Inr employees"
  using assms
  by (simp add: loadEmployees_def load_try_def existsSync_def readFileSync_def
      parse_document_def saveEmployees_def trim_empty_iff)

lemma json_roundtrip:
  "list_all safe_employee employees \<Longrightarrow>
     JSON_parse json (JSON_stringify json employees) = Some employees"
  by (simp add: json_def json_reads_back)

lemma json_not_blank: "\<not> blank (JSON_stringify json employees)"
  by (simp add: json_def json_text_not_blank)

lemma load_written:
  "list_all safe_employee employees \<Longrightarrow>
     loadEmployees json (Content (JSON_stringify json employees)) = Inr employees"
  using load_after_save [of json employees] json_roundtrip json_not_blank
  by (simp add: saveEmployees_def)




section \<open>Rejected requests\<close>

lemma loadEmployees_cases:
  obtains employees where "loadEmployees J doc = Inr employees"
  using loadEmployees_returns by blast

lemma absent_or_blank_fails:
  "absent_or_blank v \<Longrightarrow> \<not> truthy v \<or> trim (js_String v) = []"
  by (cases v) (auto simp: absent_or_blank_def trim_empty_iff blank_def)

lemma nonblank_string_passes:
  "nonblank_string v \<Longrightarrow> \<not> (\<not> truthy v \<or> trim (js_String v) = [])"
  by (cases v) (auto simp: nonblank_string_def trim_empty_iff blank_def)

lemma first_missing_Some_mem:
  "first_missing data fs = Some f \<Longrightarrow> f \<in> set fs"
  by (induction fs) (auto split: if_splits)

lemma first_missing_None_iff:
  "first_missing data fs = None \<longleftrightarrow>
     (\<forall>f \<in> set fs. truthy (data f) \<and> trim (js_String (data f)) \<noteq> [])"
  by (induction fs) auto

lemma post_missing:
  "first_missing data required = Some f \<Longrightarrow>
     http_post_employees J data doc = (Response 400 (ErrorMsg (required_message f)), doc)"
  by (rule loadEmployees_cases [of J doc]) (simp add: http_post_employees_def)

lemma post_bad_phone:
  "first_missing data required = None \<Longrightarrow> length (phone_digits (data ''phone'')) \<noteq> 10 \<Longrightarrow>
     http_post_employees J data doc = (Response 400 (ErrorMsg phone_message), doc)"
  by (rule loadEmployees_cases [of J doc]) (simp add: http_post_employees_def)

lemma post_rejects:
  assumes "first_missing data required \<noteq> None \<or> length (phone_digits (data ''phone'')) \<noteq> 10"
  shows "\<exists>msg. http_post_employees J data doc = (Response 400 (ErrorMsg msg), doc)"
proof (cases "first_missing data required")
  case None
  then show ?thesis using assms post_bad_phone by auto
next
  case (Some f)
  then show ?thesis using post_missing by blast
qed

lemma put_bad_phone:
  assumes "loadEmployees J doc = Inr employees" "list_ex (id_matches rid) employees"
    "data ''phone'' \<noteq> JUndefined" "length (phone_digits (data ''phone'')) \<noteq> 10"
  shows "http_put_employee J rid data doc = (Response 400 (ErrorMsg phone_message), doc)"
proof -
  have "findIndex (id_matches rid) employees \<noteq> - 1"
    using assms(2) by (simp add: findIndex_minus_one_iff)
  then show ?thesis
    using assms by (simp add: http_put_employee_def updated_phone_def Let_def)
qed

lemma put_not_found:
  assumes "loadEmployees J doc = Inr employees" "\<not> list_ex (id_matches rid) employees"
  shows "http_put_employee J rid data doc = (Response 404 (ErrorMsg not_found_message), doc)"
  using assms by (simp add: http_put_employee_def findIndex_none)

section \<open>Validation\<close>

text \<open>
  C9: stripping the non-digits is idempotent, on a string and through the conversion
  the handlers apply to \<open>data.phone\<close>; and a phone whose digits are not exactly ten fails
  validation: the POST handler answers 400 and leaves the file as it was, and so does
  the PUT handler for a stored identifier.
\<close>

theorem phone_normalization_idempotent:
  "strip_non_digits (strip_non_digits x) = strip_non_digits x
   \<and> phone_digits (JStr (phone_digits v)) = phone_digits v
   \<and> (data ''phone'' = JStr x \<and> length (strip_non_digits x) \<noteq> 10 \<longrightarrow>
        (\<exists>msg. http_post_employees J data doc = (Response 400 (ErrorMsg msg), doc)))
   \<and> (data ''phone'' = JStr x \<and> length (strip_non_digits x) \<noteq> 10
        \<and> loadEmployees J doc = Inr employees \<and> list_ex (id_matches rid) employees \<longrightarrow>
        http_put_employee J rid data doc = (Response 400 (ErrorMsg phone_message), doc))"
proof (intro conjI impI)
  show "strip_non_digits (strip_non_digits x) = strip_non_digits x"
    by (rule strip_idem)
  show "phone_digits (JStr (phone_digits v)) = phone_digits v"
    by (simp add: phone_digits_JStr) (simp add: phone_digits_def strip_idem)
next
  assume a: "data ''phone'' = JStr x \<and> length (strip_non_digits x) \<noteq> 10"
  then have "length (phone_digits (data ''phone'')) \<noteq> 10"
    by (simp add: phone_digits_JStr)
  then show "\<exists>msg. http_post_employees J data doc = (Response 400 (ErrorMsg msg), doc)"
    by (simp add: post_rejects)
next
  assume a: "data ''phone'' = JStr x \<and> length (strip_non_digits x) \<noteq> 10
             \<and> loadEmployees J doc = Inr employees \<and> list_ex (id_matches rid) employees"
  then have "length (phone_digits (data ''phone'')) \<noteq> 10" "data ''phone'' \<noteq> JUndefined"
    by (simp_all add: phone_digits_JStr)
  then show "http_put_employee J rid data doc = (Response 400 (ErrorMsg phone_message), doc)"
    using a put_bad_phone by blast
qed


lemma load_stored: "loadEmployees json stored = Inr [ann, bob]"
  unfolding stored_def saveEmployees_def
  by (rule load_written) (simp add: examples_safe)

lemma trim_Ann: "trim ''Ann'' = ''Ann''" "trim ''a@x.com'' = ''a@x.com''"
  by (simp_all add: trim_def is_whitespace_def)

theorem phone_normalization_idempotent_witness:
  "(ann_input (''phone'' := JStr ''123'')) ''phone'' = JStr ''123''
   \<and> length (strip_non_digits ''123'') \<noteq> 10
   \<and> strip_non_digits ''555-123-4567'' = ''5551234567''
   \<and> (\<exists>msg. http_post_employees json (ann_input (''phone'' := JStr ''123'')) stored
              = (Response 400 (ErrorMsg msg), stored))
   \<and> loadEmployees json stored = Inr [ann, bob]
   \<and> list_ex (id_matches (IdInt 1)) [ann, bob]
   \<and> http_put_employee json (IdInt 1) (ann_input (''phone'' := JStr ''123'')) stored
       = (Response 400 (ErrorMsg phone_message), stored)"
  using phone_normalization_idempotent
    [of "''123''" "JStr ''123''" "ann_input (''phone'' := JStr ''123'')" json stored "[ann, bob]"
      "IdInt 1"]
    load_stored
  by (simp add: strip_non_digits_def is_digit_def id_matches_def ann_def)

text \<open>
  What the POST handler refuses, for fields that are strings or absent: the first of
  name, email and phone that is absent, empty or whitespace-only is named, and a phone
  that does not give ten digits is reported; the file is not written.
\<close>

lemma post_rejects_invalid_input:
  "(absent_or_blank (data ''name'') \<longrightarrow>
      http_post_employees J data doc
        = (Response 400 (ErrorMsg (required_message ''name'')), doc))
   \<and> (nonblank_string (data ''name'') \<and> absent_or_blank (data ''email'') \<longrightarrow>
      http_post_employees J data doc
        = (Response 400 (ErrorMsg (required_message ''email'')), doc))
   \<and> (nonblank_string (data ''name'') \<and> nonblank_string (data ''email'')
        \<and> absent_or_blank (data ''phone'') \<longrightarrow>
      http_post_employees J data doc
        = (Response 400 (ErrorMsg (required_message ''phone'')), doc))
   \<and> (nonblank_string (data ''name'') \<and> nonblank_string (data ''email'')
        \<and> data ''phone'' = JStr p \<and> \<not> blank p \<and> length (strip_non_digits p) \<noteq> 10 \<longrightarrow>
      http_post_employees J data doc = (Response 400 (ErrorMsg phone_message), doc))"
proof (intro conjI impI)
  assume "absent_or_blank (data ''name'')"
  then have "first_missing data required = Some ''name''"
    using absent_or_blank_fails [of "data ''name''"] by (simp add: required_def)
  then show "http_post_employees J data doc
        = (Response 400 (ErrorMsg (required_message ''name'')), doc)"
    by (rule post_missing)
next
  assume "nonblank_string (data ''name'') \<and> absent_or_blank (data ''email'')"
  then have "first_missing data required = Some ''email''"
    using absent_or_blank_fails [of "data ''email''"] nonblank_string_passes [of "data ''name''"]
    by (simp add: required_def)
  then show "http_post_employees J data doc
        = (Response 400 (ErrorMsg (required_message ''email'')), doc)"
    by (rule post_missing)
next
  assume "nonblank_string (data ''name'') \<and> nonblank_string (data ''email'')
        \<and> absent_or_blank (data ''phone'')"
  then have "first_missing data required = Some ''phone''"
    using absent_or_blank_fails [of "data ''phone''"] nonblank_string_passes [of "data ''name''"]
      nonblank_string_passes [of "data ''email''"]
    by (simp add: required_def)
  then show "http_post_employees J data doc
        = (Response 400 (ErrorMsg (required_message ''phone'')), doc)"
    by (rule post_missing)
next
  assume a: "nonblank_string (data ''name'') \<and> nonblank_string (data ''email'')
        \<and> data ''phone'' = JStr p \<and> \<not> blank p \<and> length (strip_non_digits p) \<noteq> 10"
  then have "nonblank_string (data ''phone'')" by (simp add: nonblank_string_def)
  then have "first_missing data required = None"
    using a nonblank_string_passes [of "data ''phone''"] nonblank_string_passes [of "data ''name''"]
      nonblank_string_passes [of "data ''email''"]
    by (simp add: required_def)
  moreover have "length (phone_digits (data ''phone'')) \<noteq> 10"
    using a by (simp add: phone_digits_JStr)
  ultimately show "http_post_employees J data doc = (Response 400 (ErrorMsg phone_message), doc)"
    by (rule post_bad_phone)
qed

text \<open>
  C5: the PUT handler does not answer 400 to a required field that is whitespace-only.
  On the stored collection of two records, the partial input \<open>{email: " "}\<close> for the
  identifier 3 is answered with status 200, and the file is written with the email of
  that record blank. The POST handler refuses such a field (lemma
  \<open>post_rejects_invalid_input\<close>), and the PUT handler refuses a phone that does not
  give ten digits.
\<close>

theorem update_blank_email_accepted:
  "(empty_object (''email'' := JStr '' '')) ''email'' = JStr '' ''
   \<and> blank '' ''
   \<and> loadEmployees json stored = Inr [ann, bob]
   \<and> http_put_employee json (IdInt 3) (empty_object (''email'' := JStr '' '')) stored
       = (Response 200 (EmployeeBody (bob \<lparr> email := JStr '' '' \<rparr>)),
          Content (JSON_stringify json [ann, bob \<lparr> email := JStr '' '' \<rparr>]))
   \<and> loadEmployees json (Content (JSON_stringify json [ann, bob \<lparr> email := JStr '' '' \<rparr>]))
       = Inr [ann, bob \<lparr> email := JStr '' '' \<rparr>]"
proof -
  have b: "blank '' ''" by (simp add: blank_def is_whitespace_def)
  have put: "http_put_employee json (IdInt 3) (empty_object (''email'' := JStr '' '')) stored
       = (Response 200 (EmployeeBody (bob \<lparr> email := JStr '' '' \<rparr>)),
          Content (JSON_stringify json [ann, bob \<lparr> email := JStr '' '' \<rparr>]))"
    using load_stored
    by (simp add: http_put_employee_def id_matches_def updated_phone_def merge_employee_def
        nullish_def empty_object_def saveEmployees_def Let_def ann_def bob_def)
  have "list_all safe_employee [ann, bob \<lparr> email := JStr '' '' \<rparr>]"
    using examples_safe by (simp add: safe_employee_def safe_value_def)
  then have "loadEmployees json (Content (JSON_stringify json [ann, bob \<lparr> email := JStr '' '' \<rparr>]))
       = Inr [ann, bob \<lparr> email := JStr '' '' \<rparr>]"
    by (rule load_written)
  then show ?thesis using b put load_stored by simp
qed

section \<open>Deleting\<close>

lemma length_filter_same: "length (filter P xs) = length xs \<longleftrightarrow> \<not> list_ex (\<lambda>x. \<not> P x) xs"
proof
  assume eq: "length (filter P xs) = length xs"
  show "\<not> list_ex (\<lambda>x. \<not> P x) xs"
  proof
    assume "list_ex (\<lambda>x. \<not> P x) xs"
    then obtain x where "x \<in> set xs" "\<not> P x" by (auto simp: list_ex_iff)
    then have "length (filter P xs) < length xs" by (rule length_filter_less)
    with eq show False by simp
  qed
next
  assume "\<not> list_ex (\<lambda>x. \<not> P x) xs"
  then have "filter P xs = xs" by (simp add: list_ex_iff filter_id_conv)
  then show "length (filter P xs) = length xs" by simp
qed

text \<open>
  C6: the DELETE handler and the \<open>delete_employee\<close> tool remove the records whose
  identifier is the given one and write the remaining records, in their order; when no
  record has the identifier they report that the employee was not found (status 404,
  or the tool's message) and the file is not written.
\<close>

theorem delete_removes_or_not_found:
  "(loadEmployees J doc = Inr employees \<and> list_ex (id_matches rid) employees \<longrightarrow>
      http_delete_employee J rid doc
        = (Response 204 NoBody,
           Content (JSON_stringify J (filter (\<lambda>e. \<not> id_matches rid e) employees))))
   \<and> (loadEmployees J doc = Inr employees \<and> \<not> list_ex (id_matches rid) employees \<longrightarrow>
      http_delete_employee J rid doc = (Response 404 (ErrorMsg not_found_message), doc))
   \<and> (loadEmployees J doc = Inr employees \<and> args ''id'' = JNum n \<and> 0 < n
        \<and> list_ex (\<lambda>e. id_emp e = n) employees \<longrightarrow>
      tool_delete_employee J args doc
        = (TextContent (''Employee with id '' @ number_to_string n @ '' deleted successfully.''),
           Content (JSON_stringify J (filter (\<lambda>e. id_emp e \<noteq> n) employees))))
   \<and> (loadEmployees J doc = Inr employees \<and> args ''id'' = JNum n \<and> 0 < n
        \<and> \<not> list_ex (\<lambda>e. id_emp e = n) employees \<longrightarrow>
      tool_delete_employee J args doc
        = (TextContent (''No employee found with id '' @ number_to_string n @ ''.''), doc))"
  by (simp add: http_delete_employee_def tool_delete_employee_def delete_employee_schema_def
      saveEmployees_def length_filter_same Let_def)

theorem delete_removes_or_not_found_witness:
  "loadEmployees json stored = Inr [ann, bob]
   \<and> list_ex (id_matches (IdInt 1)) [ann, bob]
   \<and> http_delete_employee json (IdInt 1) stored
       = (Response 204 NoBody, Content (JSON_stringify json [bob]))
   \<and> \<not> list_ex (id_matches (IdInt 2)) [ann, bob]
   \<and> http_delete_employee json (IdInt 2) stored
       = (Response 404 (ErrorMsg not_found_message), stored)
   \<and> (empty_object (''id'' := JNum 3)) ''id'' = JNum 3 \<and> (0::int) < 3
   \<and> list_ex (\<lambda>e. id_emp e = 3) [ann, bob]
   \<and> tool_delete_employee json (empty_object (''id'' := JNum 3)) stored
       = (TextContent ''Employee with id 3 deleted successfully.'',
          Content (JSON_stringify json [ann]))
   \<and> (empty_object (''id'' := JNum 7)) ''id'' = JNum 7 \<and> (0::int) < 7
   \<and> \<not> list_ex (\<lambda>e. id_emp e = 7) [ann, bob]
   \<and> tool_delete_employee json (empty_object (''id'' := JNum 7)) stored
       = (TextContent ''No employee found with id 7.'', stored)"
proof -
  have n: "number_to_string 3 = ''3''" "number_to_string 7 = ''7''"
    by (simp_all add: number_to_string_safe digits_of.simps [of 3] digits_of.simps [of 7])
  show ?thesis
    using delete_removes_or_not_found [of json stored "[ann, bob]" "IdInt 1"]
      delete_removes_or_not_found [of json stored "[ann, bob]" "IdInt 2"]
      delete_removes_or_not_found [of json stored "[ann, bob]" _ "empty_object (''id'' := JNum 3)" 3]
      delete_removes_or_not_found [of json stored "[ann, bob]" _ "empty_object (''id'' := JNum 7)" 7]
      load_stored n
    by (simp add: id_matches_def ann_def bob_def)
qed

lemma first_missing_valid:
  assumes "data ''name'' = JStr n" "\<not> blank n" "data ''email'' = JStr e" "\<not> blank e"
    "data ''phone'' = JStr p" "length (strip_non_digits p) = 10"
  shows "first_missing data required = None"
proof -
  have "strip_non_digits p \<noteq> []" using assms(6) by auto
  then have "\<not> blank p"
    using digit_not_whitespace
    by (auto simp: blank_def strip_non_digits_def filter_empty_conv list_all_iff)
  then have "nonblank_string (data ''phone'')" "nonblank_string (data ''name'')"
    "nonblank_string (data ''email'')"
    using assms by (simp_all add: nonblank_string_def)
  then show ?thesis
    using nonblank_string_passes [of "data ''phone''"] nonblank_string_passes [of "data ''name''"]
      nonblank_string_passes [of "data ''email''"]
    by (simp add: required_def)
qed

section \<open>Creating\<close>

text \<open>
  C1: for an input whose name and email are strings that are not blank and whose phone
  is a string with exactly ten digits, the POST handler answers 201 with a record
  that has the next identifier of the loaded collection, the name and the email as
  given, the digits of the phone, and the optional fields as given or, where they are
  absent, \<open>""\<close>, \<open>""\<close>, \<open>0\<close>, \<open>""\<close> and \<open>"Active"\<close>; the file then holds the loaded
  collection with that record appended. The example is the record for Ann on an empty
  store.
\<close>

theorem create_valid_input:
  assumes "loadEmployees J doc = Inr employees"
    and "data ''name'' = JStr n" and "\<not> blank n"
    and "data ''email'' = JStr e" and "\<not> blank e"
    and "data ''phone'' = JStr p" and "length (strip_non_digits p) = 10"
  shows "\<exists>new.
      http_post_employees J data doc
        = (Response 201 (EmployeeBody new), Content (JSON_stringify J (employees @ [new])))
      \<and> id_emp new = getNextId employees
      \<and> name new = JStr n \<and> email new = JStr e \<and> phone new = JStr (strip_non_digits p)
      \<and> role new = js_or (data ''role'') (JStr [])
      \<and> department new = js_or (data ''department'') (JStr [])
      \<and> salary new = js_or (data ''salary'') (JNum 0)
      \<and> date_of_joining new = js_or (data ''date_of_joining'') (JStr [])
      \<and> status new = js_or (data ''status'') (JStr ''Active'')
      \<and> (data ''role'' = JUndefined \<longrightarrow> role new = JStr [])
      \<and> (data ''department'' = JUndefined \<longrightarrow> department new = JStr [])
      \<and> (data ''salary'' = JUndefined \<longrightarrow> salary new = JNum 0)
      \<and> (data ''date_of_joining'' = JUndefined \<longrightarrow> date_of_joining new = JStr [])
      \<and> (data ''status'' = JUndefined \<longrightarrow> status new = JStr ''Active'')"
proof -
  have fm: "first_missing data required = None"
    using assms(2-7) by (rule first_missing_valid)
  have pd: "phone_digits (data ''phone'') = strip_non_digits p"
    using assms(6) by (simp add: phone_digits_JStr)
  show ?thesis
    using assms fm pd
    by (simp add: http_post_employees_def Let_def saveEmployees_def js_or_def)
qed

theorem create_valid_input_witness:
  "loadEmployees json Absent = Inr []
   \<and> ann_input ''name'' = JStr ''Ann'' \<and> \<not> blank ''Ann''
   \<and> ann_input ''email'' = JStr ''a@x.com'' \<and> \<not> blank ''a@x.com''
   \<and> ann_input ''phone'' = JStr ''555-123-4567''
   \<and> length (strip_non_digits ''555-123-4567'') = 10
   \<and> http_post_employees json ann_input Absent
       = (Response 201 (EmployeeBody
            \<lparr> id_emp = 1, name = JStr ''Ann'', email = JStr ''a@x.com'',
              phone = JStr ''5551234567'', role = JStr [], department = JStr [],
              salary = JNum 0, date_of_joining = JStr [], status = JStr ''Active'' \<rparr>),
          Content (JSON_stringify json
            [\<lparr> id_emp = 1, name = JStr ''Ann'', email = JStr ''a@x.com'',
               phone = JStr ''5551234567'', role = JStr [], department = JStr [],
               salary = JNum 0, date_of_joining = JStr [], status = JStr ''Active'' \<rparr>]))
   \<and> loadEmployees json stored = Inr [ann, bob]
   \<and> carol_input ''name'' = JStr ''Carol'' \<and> \<not> blank ''Carol''
   \<and> carol_input ''email'' = JStr ''c@x.com'' \<and> \<not> blank ''c@x.com''
   \<and> carol_input ''phone'' = JStr ''(555) 222-3333''
   \<and> length (strip_non_digits ''(555) 222-3333'') = 10
   \<and> getNextId [ann, bob] = 4
   \<and> http_post_employees json carol_input stored
       = (Response 201 (EmployeeBody
            \<lparr> id_emp = 4, name = JStr ''Carol'', email = JStr ''c@x.com'',
              phone = JStr ''5552223333'', role = JStr ''Engineer'', department = JStr ''IT'',
              salary = JNum 72000, date_of_joining = JStr ''2025-03-01'',
              status = JStr ''Inactive'' \<rparr>),
          Content (JSON_stringify json [ann, bob, carol]))
   \<and> loadEmployees json (snd (http_post_employees json carol_input stored))
       = Inr [ann, bob, carol]"
proof -
  have l: "loadEmployees json Absent = Inr []"
    by (simp add: loadEmployees_def existsSync_def)
  have f: "ann_input ''name'' = JStr ''Ann''" "ann_input ''email'' = JStr ''a@x.com''"
    "ann_input ''phone'' = JStr ''555-123-4567''"
    "ann_input ''role'' = JUndefined" "ann_input ''department'' = JUndefined"
    "ann_input ''salary'' = JUndefined" "ann_input ''date_of_joining'' = JUndefined"
    "ann_input ''status'' = JUndefined"
    by (simp_all add: ann_input_def empty_object_def)
  have b: "\<not> blank ''Ann''" "\<not> blank ''a@x.com''"
    by (simp_all add: blank_def is_whitespace_def)
  have d: "strip_non_digits ''555-123-4567'' = ''5551234567''"
    by (simp add: strip_non_digits_def is_digit_def)
  have len: "length (strip_non_digits ''555-123-4567'') = 10"
    by (simp add: d)
  from create_valid_input [OF l f(1) b(1) f(2) b(2) f(3) len]
  obtain new where new:
    "http_post_employees json ann_input Absent
       = (Response 201 (EmployeeBody new), Content (JSON_stringify json ([] @ [new])))"
    "id_emp new = getNextId []" "name new = JStr ''Ann''" "email new = JStr ''a@x.com''"
    "phone new = JStr (strip_non_digits ''555-123-4567'')"
    "role new = JStr []" "department new = JStr []" "salary new = JNum 0"
    "date_of_joining new = JStr []" "status new = JStr ''Active''"
    using f(4-8) by auto
  have "new = \<lparr> id_emp = 1, name = JStr ''Ann'', email = JStr ''a@x.com'',
              phone = JStr ''5551234567'', role = JStr [], department = JStr [],
              salary = JNum 0, date_of_joining = JStr [], status = JStr ''Active'' \<rparr>"
    using new(2-10) d by (simp add: getNextId_Nil)
  then have first: "http_post_employees json ann_input Absent
       = (Response 201 (EmployeeBody
            \<lparr> id_emp = 1, name = JStr ''Ann'', email = JStr ''a@x.com'',
              phone = JStr ''5551234567'', role = JStr [], department = JStr [],
              salary = JNum 0, date_of_joining = JStr [], status = JStr ''Active'' \<rparr>),
          Content (JSON_stringify json
            [\<lparr> id_emp = 1, name = JStr ''Ann'', email = JStr ''a@x.com'',
               phone = JStr ''5551234567'', role = JStr [], department = JStr [],
               salary = JNum 0, date_of_joining = JStr [], status = JStr ''Active'' \<rparr>]))"
    using new(1) by simp
  have g: "carol_input ''name'' = JStr ''Carol''" "carol_input ''email'' = JStr ''c@x.com''"
    "carol_input ''phone'' = JStr ''(555) 222-3333''"
    "carol_input ''role'' = JStr ''Engineer''" "carol_input ''department'' = JStr ''IT''"
    "carol_input ''salary'' = JNum 72000" "carol_input ''date_of_joining'' = JStr ''2025-03-01''"
    "carol_input ''status'' = JStr ''Inactive''"
    by (simp_all add: carol_input_def empty_object_def)
  have c: "\<not> blank ''Carol''" "\<not> blank ''c@x.com''"
    by (simp_all add: blank_def is_whitespace_def)
  have e: "strip_non_digits ''(555) 222-3333'' = ''5552223333''"
    by (simp add: strip_non_digits_def is_digit_def)
  have len2: "length (strip_non_digits ''(555) 222-3333'') = 10"
    by (simp add: e)
  from create_valid_input [OF load_stored g(1) c(1) g(2) c(2) g(3) len2]
  obtain new2 where new2:
    "http_post_employees json carol_input stored
       = (Response 201 (EmployeeBody new2), Content (JSON_stringify json ([ann, bob] @ [new2])))"
    "id_emp new2 = getNextId [ann, bob]" "name new2 = JStr ''Carol''"
    "email new2 = JStr ''c@x.com''" "phone new2 = JStr (strip_non_digits ''(555) 222-3333'')"
    "role new2 = js_or (carol_input ''role'') (JStr [])"
    "department new2 = js_or (carol_input ''department'') (JStr [])"
    "salary new2 = js_or (carol_input ''salary'') (JNum 0)"
    "date_of_joining new2 = js_or (carol_input ''date_of_joining'') (JStr [])"
    "status new2 = js_or (carol_input ''status'') (JStr ''Active'')"
    by auto
  have n2: "new2 = carol"
    using new2(2-10) g e by (simp add: getNextId_ann_bob js_or_def carol_def)
  have second: "http_post_employees json carol_input stored
       = (Response 201 (EmployeeBody carol), Content (JSON_stringify json [ann, bob, carol]))"
    using new2(1) n2 by simp
  have "list_all safe_employee [ann, bob, carol]" by (simp add: examples_safe)
  then have reload: "loadEmployees json (Content (JSON_stringify json [ann, bob, carol]))
                     = Inr [ann, bob, carol]"
    by (rule load_written)
  show ?thesis
    using first second reload l f(1-3) b len load_stored g(1-3) c len2 getNextId_ann_bob
    by (simp add: carol_def)
qed

section \<open>The tool path and the phone\<close>

lemma phone_schema_iff:
  "phone_schema v \<longleftrightarrow> (\<exists>p. v = JStr p \<and> length p = 10 \<and> list_all is_digit p)"
  by (cases v) (simp_all add: phone_schema_def ten_digits_def)

lemma dashed_phone_digits: "strip_non_digits ''555-123-4567'' = ''5551234567''"
  by (simp add: strip_non_digits_def is_digit_def)

text \<open>
  C10: the \<open>create_employee\<close> tool does not normalize the phone. When the other fields
  pass the schema, a call is accepted exactly when the phone is a string of ten digit
  characters; an accepted call stores the phone as it was given, in a record with the
  next identifier. The phone \<open>555-123-4567\<close> is refused by the tool, while the POST
  handler accepts it and stores \<open>5551234567\<close>.
\<close>

theorem tool_create_phone_verbatim:
  "(name_schema (args ''name'') \<and> email_schema is_email (args ''email'')
      \<and> optional_string (args ''role'') \<and> optional_string (args ''department'')
      \<and> optional_number (args ''salary'') \<and> optional_string (args ''date_of_joining'')
      \<and> optional_string (args ''status'') \<longrightarrow>
      (fst (tool_create_employee J is_email args doc) \<noteq> InvalidParams
         \<longleftrightarrow> (\<exists>p. args ''phone'' = JStr p \<and> length p = 10 \<and> list_all is_digit p)))
   \<and> (fst (tool_create_employee J is_email args doc) \<noteq> InvalidParams
        \<and> loadEmployees J doc = Inr employees \<longrightarrow>
      (\<exists>new. tool_create_employee J is_email args doc
               = (TextContent (''Employee created:'' @ [CHR 0x0A]
                                 @ JSON_stringify_employee J new),
                  Content (JSON_stringify J (employees @ [new])))
             \<and> phone new = args ''phone'' \<and> id_emp new = getNextId employees))
   \<and> (args ''phone'' = JStr ''555-123-4567'' \<longrightarrow>
      tool_create_employee J is_email args doc = (InvalidParams, doc))
   \<and> (loadEmployees J doc = Inr employees \<and> nonblank_string (data ''name'')
        \<and> nonblank_string (data ''email'') \<and> data ''phone'' = JStr ''555-123-4567'' \<longrightarrow>
      (\<exists>new. http_post_employees J data doc
               = (Response 201 (EmployeeBody new),
                  Content (JSON_stringify J (employees @ [new])))
             \<and> phone new = JStr ''5551234567''))"
proof (intro conjI impI)
  assume "name_schema (args ''name'') \<and> email_schema is_email (args ''email'')
      \<and> optional_string (args ''role'') \<and> optional_string (args ''department'')
      \<and> optional_number (args ''salary'') \<and> optional_string (args ''date_of_joining'')
      \<and> optional_string (args ''status'')"
  then have "create_employee_schema is_email args \<longleftrightarrow> phone_schema (args ''phone'')"
    by (simp add: create_employee_schema_def)
  moreover have "fst (tool_create_employee J is_email args doc) \<noteq> InvalidParams
                   \<longleftrightarrow> create_employee_schema is_email args"
    by (rule loadEmployees_cases [of J doc])
       (simp add: tool_create_employee_def Let_def)
  ultimately show "fst (tool_create_employee J is_email args doc) \<noteq> InvalidParams
         \<longleftrightarrow> (\<exists>p. args ''phone'' = JStr p \<and> length p = 10 \<and> list_all is_digit p)"
    by (simp add: phone_schema_iff)
next
  assume a: "fst (tool_create_employee J is_email args doc) \<noteq> InvalidParams
        \<and> loadEmployees J doc = Inr employees"
  let ?new = "\<lparr> id_emp = getNextId employees, name = args ''name'',
                 email = args ''email'', phone = args ''phone'',
                 role = js_or (args ''role'') (JStr []),
                 department = js_or (args ''department'') (JStr []),
                 salary = nullish (args ''salary'') (JNum 0),
                 date_of_joining = js_or (args ''date_of_joining'') (JStr []),
                 status = js_or (args ''status'') (JStr ''Active'') \<rparr>"
  from a have "create_employee_schema is_email args"
    by (auto simp: tool_create_employee_def split: if_splits)
  then have "tool_create_employee J is_email args doc
               = (TextContent (''Employee created:'' @ [CHR 0x0A]
                                 @ JSON_stringify_employee J ?new),
                  Content (JSON_stringify J (employees @ [?new])))
             \<and> phone ?new = args ''phone'' \<and> id_emp ?new = getNextId employees"
    using a by (simp add: tool_create_employee_def Let_def saveEmployees_def)
  then show "\<exists>new. tool_create_employee J is_email args doc
               = (TextContent (''Employee created:'' @ [CHR 0x0A]
                                 @ JSON_stringify_employee J new),
                  Content (JSON_stringify J (employees @ [new])))
             \<and> phone new = args ''phone'' \<and> id_emp new = getNextId employees"
    by (rule exI)
next
  assume "args ''phone'' = JStr ''555-123-4567''"
  then have "\<not> phone_schema (args ''phone'')"
    by (simp add: phone_schema_def ten_digits_def)
  then show "tool_create_employee J is_email args doc = (InvalidParams, doc)"
    by (simp add: tool_create_employee_def create_employee_schema_def)
next
  assume a: "loadEmployees J doc = Inr employees \<and> nonblank_string (data ''name'')
        \<and> nonblank_string (data ''email'') \<and> data ''phone'' = JStr ''555-123-4567''"
  then have "nonblank_string (data ''phone'')"
    by (simp add: nonblank_string_def blank_def is_whitespace_def)
  then have fm: "first_missing data required = None"
    using a nonblank_string_passes [of "data ''phone''"] nonblank_string_passes [of "data ''name''"]
      nonblank_string_passes [of "data ''email''"]
    by (simp add: required_def)
  have pd: "phone_digits (data ''phone'') = ''5551234567''"
    using a by (simp add: phone_digits_JStr dashed_phone_digits)
  show "\<exists>new. http_post_employees J data doc
               = (Response 201 (EmployeeBody new),
                  Content (JSON_stringify J (employees @ [new])))
             \<and> phone new = JStr ''5551234567''"
    using a fm pd by (simp add: http_post_employees_def Let_def saveEmployees_def)
qed

theorem tool_create_phone_verbatim_witness:
  "name_schema (ann_input ''name'') \<and> email_schema has_at_sign (ann_input ''email'')
   \<and> optional_string (ann_input ''role'') \<and> optional_string (ann_input ''department'')
   \<and> optional_number (ann_input ''salary'') \<and> optional_string (ann_input ''date_of_joining'')
   \<and> optional_string (ann_input ''status'')
   \<and> tool_create_employee json has_at_sign ann_input stored = (InvalidParams, stored)
   \<and> ann_input ''phone'' = JStr ''555-123-4567''
   \<and> loadEmployees json stored = Inr [ann, bob]
   \<and> nonblank_string (ann_input ''name'') \<and> nonblank_string (ann_input ''email'')
   \<and> http_post_employees json ann_input stored
       = (Response 201 (EmployeeBody (ann \<lparr> id_emp := 4 \<rparr>)),
          Content (JSON_stringify json [ann, bob, ann \<lparr> id_emp := 4 \<rparr>]))
   \<and> fst (tool_create_employee json has_at_sign
            (ann_input (''phone'' := JStr ''5551234567'')) stored) \<noteq> InvalidParams
   \<and> tool_create_employee json has_at_sign (ann_input (''phone'' := JStr ''5551234567'')) stored
       = (TextContent (''Employee created:'' @ [CHR 0x0A]
                         @ JSON_stringify_employee json (ann \<lparr> id_emp := 4 \<rparr>)),
          Content (JSON_stringify json [ann, bob, ann \<lparr> id_emp := 4 \<rparr>]))"
proof -
  have f: "ann_input ''name'' = JStr ''Ann''" "ann_input ''email'' = JStr ''a@x.com''"
    "ann_input ''phone'' = JStr ''555-123-4567''"
    "ann_input ''role'' = JUndefined" "ann_input ''department'' = JUndefined"
    "ann_input ''salary'' = JUndefined" "ann_input ''date_of_joining'' = JUndefined"
    "ann_input ''status'' = JUndefined"
    by (simp_all add: ann_input_def empty_object_def)
  have s: "name_schema (JStr ''Ann'')" "email_schema has_at_sign (JStr ''a@x.com'')"
    "optional_string JUndefined" "optional_number JUndefined"
    "nonblank_string (JStr ''Ann'')" "nonblank_string (JStr ''a@x.com'')"
    "phone_schema (JStr ''5551234567'')"
    by (simp_all add: name_schema_def email_schema_def has_at_sign_def optional_string_def
        optional_number_def nonblank_string_def blank_def is_whitespace_def phone_schema_def
        ten_digits_def is_digit_def)
  have g: "getNextId [ann, bob] = 4" by (rule getNextId_ann_bob)
  have t: "trim ''Ann'' = ''Ann''" "trim ''a@x.com'' = ''a@x.com''"
    "trim ''555-123-4567'' = ''555-123-4567''"
    by (simp_all add: trim_def is_whitespace_def)
  have post: "http_post_employees json ann_input stored
       = (Response 201 (EmployeeBody (ann \<lparr> id_emp := 4 \<rparr>)),
          Content (JSON_stringify json [ann, bob, ann \<lparr> id_emp := 4 \<rparr>]))"
    using load_stored f g t
    by (simp add: http_post_employees_def required_def phone_digits_def js_or_def
        dashed_phone_digits saveEmployees_def ann_def Let_def)
  have tool: "tool_create_employee json has_at_sign (ann_input (''phone'' := JStr ''5551234567'')) stored
       = (TextContent (''Employee created:'' @ [CHR 0x0A]
                         @ JSON_stringify_employee json (ann \<lparr> id_emp := 4 \<rparr>)),
          Content (JSON_stringify json [ann, bob, ann \<lparr> id_emp := 4 \<rparr>]))"
    using load_stored f g s
    by (simp add: tool_create_employee_def create_employee_schema_def js_or_def nullish_def
        saveEmployees_def ann_def Let_def)
  show ?thesis
    using tool_create_phone_verbatim [of ann_input has_at_sign json stored "[ann, bob]" ann_input]
      tool_create_phone_verbatim
        [of "ann_input (''phone'' := JStr ''5551234567'')" has_at_sign json stored "[ann, bob]"]
      load_stored f s post tool
    by simp
qed

section \<open>Updating\<close>

lemma updated_phone_spec:
  assumes "data ''phone'' = JUndefined
           \<or> (\<exists>p. data ''phone'' = JStr p \<and> length (strip_non_digits p) = 10)"
  shows "updated_phone data emp = Some (spec_merge_phone (data ''phone'') (phone emp))"
  using assms
  by (auto simp: updated_phone_def spec_merge_phone_def phone_digits_JStr Let_def)

text \<open>\<open>??\<close> takes \<open>null\<close> like an absent field: the prior value stays.\<close>

lemma nullish_JNull: "nullish JNull old = old"
  by (simp add: nullish_def)

lemma nullish_spec: "v \<noteq> JNull \<Longrightarrow> nullish v old = spec_merge_field v old"
  by (simp add: nullish_def spec_merge_field_def)

lemma merge_employee_spec:
  fixes emp :: employee
  assumes "list_all (\<lambda>f. data f \<noteq> JNull) employee_keys"
  shows "merge_employee data emp (spec_merge_phone (data ''phone'') (phone emp))
           = spec_merge data emp"
  using assms
  by (cases emp) (simp add: merge_employee_def spec_merge_def employee_keys_def nullish_spec)

lemma put_merges:
  assumes load: "loadEmployees J doc = Inr employees"
    and found: "list_ex (id_matches rid) employees"
    and nonull: "list_all (\<lambda>f. data f \<noteq> JNull) employee_keys"
    and ph: "data ''phone'' = JUndefined
             \<or> (\<exists>p. data ''phone'' = JStr p \<and> length (strip_non_digits p) = 10)"
  shows "\<exists>i < length employees.
           id_matches rid (employees ! i) \<and> (\<forall>j < i. \<not> id_matches rid (employees ! j))
           \<and> http_put_employee J rid data doc
               = (Response 200 (EmployeeBody (spec_merge data (employees ! i))),
                  Content (JSON_stringify J (employees [i := spec_merge data (employees ! i)])))"
proof -
  let ?index = "findIndex (id_matches rid) employees"
  let ?i = "nat ?index"
  from findIndex_found [OF found]
  have idx: "0 \<le> ?index" "?i < length employees" "id_matches rid (employees ! ?i)"
    "\<forall>j < ?i. \<not> id_matches rid (employees ! j)"
    by simp_all
  have ne: "?index \<noteq> - 1" using idx(1) by simp
  have up: "updated_phone data (employees ! ?i)
              = Some (spec_merge_phone (data ''phone'') (phone (employees ! ?i)))"
    using ph by (rule updated_phone_spec)
  have "http_put_employee J rid data doc
          = (Response 200 (EmployeeBody (spec_merge data (employees ! ?i))),
             Content (JSON_stringify J (employees [?i := spec_merge data (employees ! ?i)])))"
    using load ne up idx(2) merge_employee_spec [OF nonull, of "employees ! ?i"]
    by (simp add: http_put_employee_def Let_def saveEmployees_def)
  with idx show ?thesis by blast
qed

lemma partial_employee_no_null:
  "partial_employee data \<Longrightarrow> list_all (\<lambda>f. data f \<noteq> JNull) employee_keys"
  by (auto simp: partial_employee_def employee_keys_def string_or_absent_def
      number_or_absent_def)

text \<open>
  C2: for a stored identifier the PUT handler answers 200 with the merged record and
  writes the collection with the first record of that identifier replaced by it: a
  field that the partial input holds takes the new value, a field that it lacks keeps
  the prior value, and a phone that is present is stored as its ten digits. The
  partial input is one of the data model: its fields hold strings, the salary a
  number. A phone that is
  present and does not give exactly ten digits blocks the whole update (status 400,
  the file not written); an identifier that is not stored gives status 404.
\<close>

theorem update_merges:
  "(loadEmployees J doc = Inr employees \<and> list_ex (id_matches rid) employees
      \<and> partial_employee data
      \<and> (data ''phone'' = JUndefined
          \<or> (\<exists>p. data ''phone'' = JStr p \<and> length (strip_non_digits p) = 10)) \<longrightarrow>
      (\<exists>i < length employees.
         id_matches rid (employees ! i) \<and> (\<forall>j < i. \<not> id_matches rid (employees ! j))
         \<and> http_put_employee J rid data doc
             = (Response 200 (EmployeeBody (spec_merge data (employees ! i))),
                Content (JSON_stringify J
                  (employees [i := spec_merge data (employees ! i)])))))
   \<and> (loadEmployees J doc = Inr employees \<and> list_ex (id_matches rid) employees
        \<and> data ''phone'' = JStr p \<and> length (strip_non_digits p) \<noteq> 10 \<longrightarrow>
      http_put_employee J rid data doc = (Response 400 (ErrorMsg phone_message), doc))
   \<and> (loadEmployees J doc = Inr employees \<and> \<not> list_ex (id_matches rid) employees \<longrightarrow>
      http_put_employee J rid data doc = (Response 404 (ErrorMsg not_found_message), doc))"
proof (intro conjI impI)
  assume a: "loadEmployees J doc = Inr employees \<and> list_ex (id_matches rid) employees
      \<and> partial_employee data
      \<and> (data ''phone'' = JUndefined
          \<or> (\<exists>p. data ''phone'' = JStr p \<and> length (strip_non_digits p) = 10))"
  then have "list_all (\<lambda>f. data f \<noteq> JNull) employee_keys"
    by (simp add: partial_employee_no_null)
  with a show "\<exists>i < length employees.
         id_matches rid (employees ! i) \<and> (\<forall>j < i. \<not> id_matches rid (employees ! j))
         \<and> http_put_employee J rid data doc
             = (Response 200 (EmployeeBody (spec_merge data (employees ! i))),
                Content (JSON_stringify J
                  (employees [i := spec_merge data (employees ! i)])))"
    using put_merges by blast
next
  assume a: "loadEmployees J doc = Inr employees \<and> list_ex (id_matches rid) employees
        \<and> data ''phone'' = JStr p \<and> length (strip_non_digits p) \<noteq> 10"
  then have "data ''phone'' \<noteq> JUndefined" "length (phone_digits (data ''phone'')) \<noteq> 10"
    by (simp_all add: phone_digits_JStr)
  then show "http_put_employee J rid data doc = (Response 400 (ErrorMsg phone_message), doc)"
    using a put_bad_phone by blast
next
  assume "loadEmployees J doc = Inr employees \<and> \<not> list_ex (id_matches rid) employees"
  then show "http_put_employee J rid data doc
               = (Response 404 (ErrorMsg not_found_message), doc)"
    using put_not_found by blast
qed

theorem update_merges_witness:
  "loadEmployees json stored = Inr [ann, bob]
   \<and> list_ex (id_matches (IdInt 3)) [ann, bob]
   \<and> partial_employee (empty_object (''status'' := JStr ''Inactive''))
   \<and> (empty_object (''status'' := JStr ''Inactive'')) ''phone'' = JUndefined
   \<and> http_put_employee json (IdInt 3) (empty_object (''status'' := JStr ''Inactive'')) stored
       = (Response 200 (EmployeeBody (bob \<lparr> status := JStr ''Inactive'' \<rparr>)),
          Content (JSON_stringify json [ann, bob \<lparr> status := JStr ''Inactive'' \<rparr>]))
   \<and> phone (bob \<lparr> status := JStr ''Inactive'' \<rparr>) = phone bob
   \<and> partial_employee bob_input
   \<and> bob_input ''phone'' = JStr ''555.000.1111''
   \<and> length (strip_non_digits ''555.000.1111'') = 10
   \<and> http_put_employee json (IdInt 3) bob_input stored
       = (Response 200 (EmployeeBody
            \<lparr> id_emp = 3, name = JStr ''Bob'', email = JStr ''b@x.com'',
              phone = JStr ''5550001111'', role = JStr ''Lead'', department = JStr ''QA'',
              salary = JNum 50000, date_of_joining = JStr ''2024-01-15'',
              status = JStr ''Active'' \<rparr>),
          Content (JSON_stringify json
            [ann, bob \<lparr> phone := JStr ''5550001111'', role := JStr ''Lead'' \<rparr>]))
   \<and> loadEmployees json (snd (http_put_employee json (IdInt 3) bob_input stored))
       = Inr [ann, bob \<lparr> phone := JStr ''5550001111'', role := JStr ''Lead'' \<rparr>]
   \<and> (empty_object (''phone'' := JStr ''123'')) ''phone'' = JStr ''123''
   \<and> length (strip_non_digits ''123'') \<noteq> 10
   \<and> http_put_employee json (IdInt 1) (empty_object (''phone'' := JStr ''123'')) stored
       = (Response 400 (ErrorMsg phone_message), stored)
   \<and> \<not> list_ex (id_matches (IdInt 2)) [ann, bob]
   \<and> http_put_employee json (IdInt 2) (empty_object (''status'' := JStr ''Inactive'')) stored
       = (Response 404 (ErrorMsg not_found_message), stored)"
proof -
  let ?data = "empty_object (''status'' := JStr ''Inactive'')"
  let ?bob' = "bob \<lparr> phone := JStr ''5550001111'', role := JStr ''Lead'' \<rparr>"
  have m: "list_ex (id_matches (IdInt 3)) [ann, bob]" "list_ex (id_matches (IdInt 1)) [ann, bob]"
    "\<not> list_ex (id_matches (IdInt 2)) [ann, bob]"
    "\<not> id_matches (IdInt 3) ann" "id_matches (IdInt 3) bob"
    by (simp_all add: id_matches_def ann_def bob_def)
  have k: "partial_employee ?data" "?data ''phone'' = JUndefined"
    by (simp_all add: partial_employee_def string_or_absent_def number_or_absent_def
        empty_object_def)
  have d: "length (strip_non_digits ''123'') \<noteq> 10"
    by (simp add: strip_non_digits_def is_digit_def)
  have sm: "spec_merge ?data bob = bob \<lparr> status := JStr ''Inactive'' \<rparr>"
    by (simp add: spec_merge_def spec_merge_field_def spec_merge_phone_def empty_object_def
        bob_def)
  from update_merges [of json stored "[ann, bob]" "IdInt 3" ?data] load_stored m(1) k
  obtain i where i: "i < length [ann, bob]" "id_matches (IdInt 3) ([ann, bob] ! i)"
    "http_put_employee json (IdInt 3) ?data stored
       = (Response 200 (EmployeeBody (spec_merge ?data ([ann, bob] ! i))),
          Content (JSON_stringify json ([ann, bob] [i := spec_merge ?data ([ann, bob] ! i)])))"
    by blast
  have "i = 1"
    using i(1,2) m(4) by (cases i) auto
  then have put: "http_put_employee json (IdInt 3) ?data stored
       = (Response 200 (EmployeeBody (bob \<lparr> status := JStr ''Inactive'' \<rparr>)),
          Content (JSON_stringify json [ann, bob \<lparr> status := JStr ''Inactive'' \<rparr>]))"
    using i(3) sm by simp
  have pk: "partial_employee bob_input" "bob_input ''phone'' = JStr ''555.000.1111''"
    by (simp_all add: partial_employee_def string_or_absent_def number_or_absent_def
        bob_input_def empty_object_def)
  have pd: "strip_non_digits ''555.000.1111'' = ''5550001111''"
    by (simp add: strip_non_digits_def is_digit_def)
  have plen: "length (strip_non_digits ''555.000.1111'') = 10" by (simp add: pd)
  have psm: "spec_merge bob_input bob = ?bob'"
    by (simp add: spec_merge_def spec_merge_field_def spec_merge_phone_def bob_input_def
        empty_object_def pd bob_def)
  from update_merges [of json stored "[ann, bob]" "IdInt 3" bob_input] load_stored m(1) pk plen
  obtain j where j: "j < length [ann, bob]" "id_matches (IdInt 3) ([ann, bob] ! j)"
    "http_put_employee json (IdInt 3) bob_input stored
       = (Response 200 (EmployeeBody (spec_merge bob_input ([ann, bob] ! j))),
          Content (JSON_stringify json
            ([ann, bob] [j := spec_merge bob_input ([ann, bob] ! j)])))"
    by blast
  have "j = 1"
    using j(1,2) m(4) by (cases j) auto
  then have put2: "http_put_employee json (IdInt 3) bob_input stored
       = (Response 200 (EmployeeBody ?bob'), Content (JSON_stringify json [ann, ?bob']))"
    using j(3) psm by simp
  have shape: "?bob' = \<lparr> id_emp = 3, name = JStr ''Bob'', email = JStr ''b@x.com'',
              phone = JStr ''5550001111'', role = JStr ''Lead'', department = JStr ''QA'',
              salary = JNum 50000, date_of_joining = JStr ''2024-01-15'',
              status = JStr ''Active'' \<rparr>"
    by (simp add: bob_def)
  have "list_all safe_employee [ann, ?bob']"
    using examples_safe by (simp add: safe_employee_def safe_value_def)
  then have reload: "loadEmployees json (Content (JSON_stringify json [ann, ?bob']))
                     = Inr [ann, ?bob']"
    by (rule load_written)
  show ?thesis
    using put put2 reload load_stored m k d pk plen
      update_merges [of json stored "[ann, bob]" "IdInt 1" "empty_object (''phone'' := JStr ''123'')"
        "''123''"]
      update_merges [of json stored "[ann, bob]" "IdInt 2" ?data]
    by (simp add: shape [symmetric])
qed

section \<open>The predicates of the data model\<close>

text \<open>
  The POST handler, on valid inputs and a collection whose identifiers are safe
  integers, and the DELETE handler keep the three predicates; the PUT handler keeps the
  identifiers unique and the phones in their ten-digit form.
\<close>

lemma ten_digits_strip: "length (strip_non_digits p) = 10 \<Longrightarrow> ten_digits (strip_non_digits p)"
  by (simp add: ten_digits_def strip_non_digits_def list_all_iff)

lemma fresh_id_distinct:
  "ids_unique employees \<Longrightarrow> ids_safe employees \<Longrightarrow> id_emp new = getNextId employees \<Longrightarrow>
     ids_unique (employees @ [new])"
  using getNextId_greater [of employees] by (fastforce simp: ids_unique_def)

lemma post_preserves_collection_valid:
  assumes load: "loadEmployees J doc = Inr employees"
    and valid: "collection_valid employees"
    and safe: "ids_safe employees"
    and input: "data ''name'' = JStr n" "\<not> blank n" "data ''email'' = JStr e" "\<not> blank e"
      "data ''phone'' = JStr p" "length (strip_non_digits p) = 10"
  shows "\<exists>new. http_post_employees J data doc
                 = (Response 201 (EmployeeBody new),
                    Content (JSON_stringify J (employees @ [new])))
               \<and> collection_valid (employees @ [new])"
proof -
  let ?new = "\<lparr> id_emp = getNextId employees, name = data ''name'', email = data ''email'',
                 phone = JStr (strip_non_digits p),
                 role = js_or (data ''role'') (JStr []),
                 department = js_or (data ''department'') (JStr []),
                 salary = js_or (data ''salary'') (JNum 0),
                 date_of_joining = js_or (data ''date_of_joining'') (JStr []),
                 status = js_or (data ''status'') (JStr ''Active'') \<rparr>"
  have fm: "first_missing data required = None"
    using input by (rule first_missing_valid)
  have pd: "phone_digits (data ''phone'') = strip_non_digits p"
    using input(5) by (simp add: phone_digits_JStr)
  have post: "http_post_employees J data doc
                = (Response 201 (EmployeeBody ?new),
                   Content (JSON_stringify J (employees @ [?new])))"
    using load fm pd input(6) by (simp add: http_post_employees_def Let_def saveEmployees_def)
  have "n \<noteq> []" "e \<noteq> []" using input(2,4) by (auto simp: blank_def)
  then have rec: "nonempty_string (name ?new)" "nonempty_string (email ?new)"
    "ten_digit_string (phone ?new)"
    using input ten_digits_strip [of p] by (simp_all add: nonempty_string_def ten_digit_string_def)
  have "ids_unique (employees @ [?new])"
    using valid safe by (intro fresh_id_distinct) (simp_all add: collection_valid_def)
  then have "collection_valid (employees @ [?new])"
    using valid rec
    by (simp add: collection_valid_def names_nonempty_def phones_normalized_def)
  with post show ?thesis by blast
qed

lemma filter_preserves_collection_valid:
  "collection_valid employees \<Longrightarrow> collection_valid (filter P employees)"
  by (auto simp: collection_valid_def ids_unique_def names_nonempty_def phones_normalized_def
      list_all_iff distinct_map_filter)

lemma delete_preserves_collection_valid:
  assumes "loadEmployees J doc = Inr employees" "collection_valid employees"
  shows "snd (http_delete_employee J rid doc) = doc
         \<or> (\<exists>employees'. snd (http_delete_employee J rid doc)
                            = Content (JSON_stringify J employees')
                          \<and> collection_valid employees')"
  using assms filter_preserves_collection_valid [of employees "\<lambda>e. \<not> id_matches rid e"]
  by (auto simp: http_delete_employee_def Let_def saveEmployees_def)

lemma updated_phone_ten_digits:
  "updated_phone data emp = Some ph \<Longrightarrow> ten_digit_string (phone emp) \<Longrightarrow> ten_digit_string ph"
  by (auto simp: updated_phone_def Let_def ten_digit_string_def ten_digits_def phone_digits_def
      strip_non_digits_def list_all_iff split: if_splits)

lemma merge_employee_fields:
  "id_emp (merge_employee data emp ph) = id_emp emp"
  "phone (merge_employee data emp ph) = ph"
  by (simp_all add: merge_employee_def)

lemma ids_unique_update:
  assumes "ids_unique employees" "i < length employees" "id_emp e = id_emp (employees ! i)"
  shows "ids_unique (employees [i := e])"
proof -
  have "map id_emp (employees [i := e]) = map id_emp employees"
    using assms(2,3) by (simp add: map_update list_update_same_conv)
  then show ?thesis using assms(1) by (simp add: ids_unique_def)
qed

lemma phones_normalized_update:
  assumes "phones_normalized employees" "ten_digit_string (phone e)"
  shows "phones_normalized (employees [i := e])"
  using assms
  by (auto simp: phones_normalized_def list_all_iff dest: set_update_subset_insert [THEN subsetD])

lemma put_preserves_ids_and_phones:
  assumes load: "loadEmployees J doc = Inr employees"
    and valid: "collection_valid employees"
  shows "snd (http_put_employee J rid data doc) = doc
         \<or> (\<exists>employees'. snd (http_put_employee J rid data doc)
                            = Content (JSON_stringify J employees')
                          \<and> ids_unique employees' \<and> phones_normalized employees')"
proof (cases "list_ex (id_matches rid) employees")
  case False
  then show ?thesis using load by (simp add: put_not_found)
next
  case True
  let ?i = "nat (findIndex (id_matches rid) employees)"
  let ?emp = "employees ! ?i"
  from findIndex_found [OF True]
  have idx: "0 \<le> findIndex (id_matches rid) employees" "?i < length employees" by simp_all
  then have ne: "findIndex (id_matches rid) employees \<noteq> - 1" by simp
  show ?thesis
  proof (cases "updated_phone data ?emp")
    case None
    then show ?thesis using load ne by (simp add: http_put_employee_def Let_def)
  next
    case (Some ph)
    let ?merged = "merge_employee data ?emp ph"
    have "ten_digit_string (phone ?emp)"
      using valid idx(2) by (simp add: collection_valid_def phones_normalized_def list_all_length)
    then have "ten_digit_string ph" using Some updated_phone_ten_digits by blast
    then have "phones_normalized (employees [?i := ?merged])"
      using valid
      by (intro phones_normalized_update) (simp_all add: collection_valid_def merge_employee_fields)
    moreover have "ids_unique (employees [?i := ?merged])"
      using valid idx(2)
      by (intro ids_unique_update) (simp_all add: collection_valid_def merge_employee_fields)
    moreover have "snd (http_put_employee J rid data doc)
                     = Content (JSON_stringify J (employees [?i := ?merged]))"
      using load ne Some by (simp add: http_put_employee_def Let_def saveEmployees_def)
    ultimately show ?thesis by blast
  qed
qed

text \<open>
  C4: on a collection with unique identifiers, non-empty names and emails and
  ten-digit phones, the PUT handler accepts the partial input \<open>{name: ""}\<close> for the
  identifier 1, answers 200 and writes a collection in which the name of that record is
  the empty string: the PUT handler does not apply the required-field check that the
  POST handler applies.
\<close>

theorem update_blank_name_breaks_invariant:
  "collection_valid [ann, bob]
   \<and> loadEmployees json stored = Inr [ann, bob]
   \<and> http_put_employee json (IdInt 1) (empty_object (''name'' := JStr [])) stored
       = (Response 200 (EmployeeBody (ann \<lparr> name := JStr [] \<rparr>)),
          Content (JSON_stringify json [ann \<lparr> name := JStr [] \<rparr>, bob]))
   \<and> \<not> collection_valid [ann \<lparr> name := JStr [] \<rparr>, bob]"
proof -
  have v: "collection_valid [ann, bob]"
    by (simp add: collection_valid_def ids_unique_def names_nonempty_def phones_normalized_def
        nonempty_string_def ten_digit_string_def ten_digits_def is_digit_def ann_def bob_def)
  have nv: "\<not> collection_valid [ann \<lparr> name := JStr [] \<rparr>, bob]"
    by (simp add: collection_valid_def names_nonempty_def nonempty_string_def)
  have put: "http_put_employee json (IdInt 1) (empty_object (''name'' := JStr [])) stored
       = (Response 200 (EmployeeBody (ann \<lparr> name := JStr [] \<rparr>)),
          Content (JSON_stringify json [ann \<lparr> name := JStr [] \<rparr>, bob]))"
    using load_stored
    by (simp add: http_put_employee_def id_matches_def updated_phone_def merge_employee_def
        nullish_def empty_object_def saveEmployees_def Let_def ann_def)
  show ?thesis using v nv put load_stored by simp
qed

end
